theory Spec2Isabelle
  imports Main "HOL-Library.List_Lexorder" "HOL-Library.Char_ord"
begin

section \<open>Exceptions and Python truth values\<close>

text \<open>
  The exceptions the modelled code raises, each with its message. A function that may raise
  returns \<open>exn + 'a\<close>, with \<open>Inl\<close> for the exception.
\<close>

datatype exn =
    ValueError string
  | KeyError string
  | TypeError string
  | RuntimeError string
  | AttributeError string
  | ValidationError string
  | CancelledError

text \<open>The test \<^verbatim>\<open>if s:\<close> on an optional string: \<^verbatim>\<open>None\<close> and the empty string are false.\<close>

definition truthy :: "string option \<Rightarrow> bool" where
  "truthy s = (case s of None \<Rightarrow> False | Some v \<Rightarrow> v \<noteq> [])"

text \<open>\<^verbatim>\<open>sep.join(xs)\<close>.\<close>

fun join :: "string \<Rightarrow> string list \<Rightarrow> string" where
  "join sep [] = []"
| "join sep [x] = x"
| "join sep (x # y # ys) = x @ sep @ join sep (y # ys)"

section \<open>Settings\<close>

text \<open>
  \<^verbatim>\<open>mcp_agent/config.py\<close>. A configuration file is a YAML mapping. A mapping is a list of
  pairs in the order of its keys.
\<close>

datatype yaml =
    YNull
  | YStr string
  | YInt int
  | YBool bool
  | YList "yaml list"
  | YDict "(string \<times> yaml) list"

type_synonym ydict = "(string \<times> yaml) list"

text \<open>\<^verbatim>\<open>d[k] = v\<close> on a dictionary: an existing key keeps its place, a new one goes last.\<close>

fun dict_set :: "'k \<Rightarrow> 'v \<Rightarrow> ('k \<times> 'v) list \<Rightarrow> ('k \<times> 'v) list" where
  "dict_set k v [] = [(k, v)]"
| "dict_set k v ((k', v') # kvs) =
     (if k' = k then (k, v) # kvs else (k', v') # dict_set k v kvs)"

text \<open>
  \<^verbatim>\<open>Settings\<close> is a \<^verbatim>\<open>BaseSettings\<close> class of the library pydantic-settings, configured with
  \<^verbatim>\<open>env_file=".env"\<close>. A field that the constructor is not given takes its value from the
  environment variable of its name (names are compared without case), else from the
  \<^verbatim>\<open>.env\<close> file, else its declared default. The environment and the \<^verbatim>\<open>.env\<close> file map a
  field name to its value there. The library validates every field and raises one
  \<^verbatim>\<open>ValidationError\<close> when any is invalid; its verdict on the fields other than
  \<^verbatim>\<open>default_model\<close>, for the mapping given to the constructor, is the third component.
\<close>

record settings_sources =
  environ :: "string \<Rightarrow> string option"
  dotenv :: "string \<Rightarrow> string option"
  other_fields_valid :: "(string \<times> yaml) list \<Rightarrow> bool"

text \<open>
  Of the fields of \<^verbatim>\<open>Settings\<close> the model keeps \<^verbatim>\<open>default_model\<close>, declared
  \<^verbatim>\<open>default_model: str | None = "haiku"\<close>. \<^verbatim>\<open>Settings(**config)\<close> takes the value of the key
  when the mapping has it: a string or null is kept, any other value is refused by the
  validation of the field.
\<close>

record Settings =
  default_model :: "string option"

definition Settings_init :: "settings_sources \<Rightarrow> ydict \<Rightarrow> exn + Settings" where
  "Settings_init sources config =
     (if \<not> other_fields_valid sources config then Inl (ValidationError ''Settings'')
      else
        (case map_of config ''default_model'' of
           Some YNull \<Rightarrow> Inr \<lparr>default_model = None\<rparr>
         | Some (YStr s) \<Rightarrow> Inr \<lparr>default_model = Some s\<rparr>
         | Some _ \<Rightarrow> Inl (ValidationError ''Settings'')
         | None \<Rightarrow>
             (case environ sources ''default_model'' of
                Some v \<Rightarrow> Inr \<lparr>default_model = Some v\<rparr>
              | None \<Rightarrow>
                  (case dotenv sources ''default_model'' of
                     Some v \<Rightarrow> Inr \<lparr>default_model = Some v\<rparr>
                   | None \<Rightarrow> Inr \<lparr>default_model = Some ''haiku''\<rparr>))))"

text \<open>
  The local function \<^verbatim>\<open>deep_merge\<close> of \<^verbatim>\<open>get_settings\<close>: the loop over the items of
  \<^verbatim>\<open>update\<close>, with \<^verbatim>\<open>merged\<close> as first argument.
\<close>

fun deep_merge :: "ydict \<Rightarrow> ydict \<Rightarrow> ydict" where
  "deep_merge merged [] = merged"
| "deep_merge merged ((key, YDict u) # update) =
     deep_merge
       (case map_of merged key of
          Some (YDict b) \<Rightarrow> dict_set key (YDict (deep_merge b u)) merged
        | _ \<Rightarrow> dict_set key (YDict u) merged)
       update"
| "deep_merge merged ((key, v) # update) = deep_merge (dict_set key v merged) update"

text \<open>
  Paths are lists of components, innermost first, so that the parent of a directory is the
  tail of the list and the root, which is its own parent, is the empty list. The file
  system maps the path of an existing YAML file to its parsed content (the empty mapping for
  an empty file).
\<close>

type_synonym path = "string list"
type_synonym filesystem = "path \<Rightarrow> ydict option"

definition config_filenames :: "string list" where
  "config_filenames = [''mcp-agent.config.yaml'', ''mcp_agent.config.yaml'', ''fastagent.config.yaml'']"

definition secrets_filenames :: "string list" where
  "secrets_filenames = [''mcp-agent.secrets.yaml'', ''mcp_agent.secrets.yaml'', ''fastagent.secrets.yaml'']"

text \<open>\<^verbatim>\<open>Settings.find_config\<close>, started in the current directory.\<close>

fun find_config :: "filesystem \<Rightarrow> path \<Rightarrow> path option" where
  "find_config fs [] = None"
| "find_config fs (d # ds) =
     (case find (\<lambda>filename. fs (filename # d # ds) \<noteq> None) config_filenames of
        Some filename \<Rightarrow> Some (filename # d # ds)
      | None \<Rightarrow> find_config fs ds)"

text \<open>The search for the first secrets file, from the directory of the configuration file upwards.\<close>

fun find_secrets :: "filesystem \<Rightarrow> path \<Rightarrow> ydict option" where
  "find_secrets fs [] = None"
| "find_secrets fs (d # ds) =
     (case find (\<lambda>filename. fs (filename # d # ds) \<noteq> None) secrets_filenames of
        Some filename \<Rightarrow> fs (filename # d # ds)
      | None \<Rightarrow> find_secrets fs ds)"

text \<open>
  \<^verbatim>\<open>get_settings\<close>. The module-level variable \<^verbatim>\<open>_settings\<close> is passed in and returned; the
  file system, the current directory and the environment are read only. An exception of \<^verbatim>\<open>Settings(...)\<close>
  leaves the variable as it was.
\<close>

definition get_settings ::
  "settings_sources \<Rightarrow> filesystem \<Rightarrow> path \<Rightarrow> Settings option \<Rightarrow> path option
     \<Rightarrow> (exn + Settings) \<times> Settings option" where
  "get_settings sources fs cwd settings_global config_path =
     (case settings_global of
        Some s \<Rightarrow> (Inr s, settings_global)
      | None \<Rightarrow>
          (let config_file = (case config_path of Some p \<Rightarrow> Some p | None \<Rightarrow> find_config fs cwd);
               merged_settings =
                 (case config_file of
                    None \<Rightarrow> []
                  | Some p \<Rightarrow>
                      (case fs p of
                         None \<Rightarrow> []
                       | Some yaml_settings \<Rightarrow>
                           (case find_secrets fs (tl p) of
                              None \<Rightarrow> yaml_settings
                            | Some yaml_secrets \<Rightarrow> deep_merge yaml_settings yaml_secrets)))
           in (case Settings_init sources merged_settings of
                 Inl e \<Rightarrow> (Inl e, None)
               | Inr s \<Rightarrow> (Inr s, Some s))))"

section \<open>The application object\<close>

text \<open>
  \<^verbatim>\<open>mcp_agent/app.py\<close>. The callables given to \<^verbatim>\<open>workflow_task\<close> live in a store, addressed
  by references, since the decorator sets attributes on the object it is given and hands the
  same object to the registry and back to the caller.
\<close>

datatype meta_value =
    MStr string
  | MTimeout int
  | MDict "(string \<times> string) list"
  | MBool bool
  | MMeta "(string \<times> meta_value) list"

type_synonym metadata = "(string \<times> meta_value) list"

text \<open>
  A callable is any object admitted by \<^verbatim>\<open>Callable[..., R]\<close>: a function, a bound method, a
  \<^verbatim>\<open>functools.partial\<close> object, an instance of a class with \<^verbatim>\<open>__call__\<close>. The model keeps
  what \<^verbatim>\<open>workflow_task\<close> reads and writes: the attributes \<^verbatim>\<open>__name__\<close>, \<^verbatim>\<open>__module__\<close> and
  \<^verbatim>\<open>__qualname__\<close>, each \<^verbatim>\<open>None\<close> when the object has none (reading it then raises
  \<^verbatim>\<open>AttributeError\<close>; a partial object has neither name nor qualified name), the verdict of
  \<^verbatim>\<open>asyncio.iscoroutinefunction\<close>, whether the object accepts new attributes (a bound method
  does not: \<^verbatim>\<open>setattr\<close> raises \<^verbatim>\<open>AttributeError\<close>), and the attributes set so far.
\<close>

record callable_obj =
  co_name :: "string option"
  co_module :: "string option"
  co_qualname :: "string option"
  co_is_coroutine :: bool
  co_settable :: bool
  co_attrs :: metadata

type_synonym fref = nat
type_synonym store = "fref \<Rightarrow> callable_obj"

text \<open>
  The context holds the settings and the task registry. The three callbacks that
  \<^verbatim>\<open>initialize\<close> copies into the context play no part in what follows and are left out.
\<close>

record Context =
  config :: Settings
  task_registry :: "(string \<times> fref \<times> metadata) list"

record MCPApp =
  app_name :: string
  app_workflows :: "(string \<times> string) list"
  app_context :: "Context option"
  app_initialized :: bool
  app_log :: "string list"

text \<open>The property \<^verbatim>\<open>MCPApp.context\<close>.\<close>

definition context_of :: "MCPApp \<Rightarrow> exn + Context" where
  "context_of app =
     (case app_context app of
        None \<Rightarrow> Inl (RuntimeError ''MCPApp not initialized, please call initialize() first, or use async with app.run().'')
      | Some c \<Rightarrow> Inr c)"

text \<open>
  \<^verbatim>\<open>initialize_context\<close> and \<^verbatim>\<open>cleanup_context\<close> belong to a module outside this source;
  they are parameters, acting on a state \<open>'w\<close> of everything outside the application
  object. \<^verbatim>\<open>cleanup_context\<close> returns the exception it raised, if any.
\<close>

definition initialize ::
  "('w \<Rightarrow> (exn + Context) \<times> 'w) \<Rightarrow> MCPApp \<Rightarrow> 'w \<Rightarrow> exn option \<times> MCPApp \<times> 'w" where
  "initialize initialize_context app w =
     (if app_initialized app then (None, app, w)
      else (case initialize_context w of
              (Inl e, w') \<Rightarrow> (Some e, app, w')
            | (Inr c, w') \<Rightarrow>
                (None,
                 app\<lparr>app_context := Some c, app_initialized := True,
                     app_log := app_log app @ [''MCPAgent initialized'']\<rparr>,
                 w')))"

definition cleanup ::
  "('w \<Rightarrow> exn option \<times> 'w) \<Rightarrow> MCPApp \<Rightarrow> 'w \<Rightarrow> exn option \<times> MCPApp \<times> 'w" where
  "cleanup cleanup_context app w =
     (if \<not> app_initialized app then (None, app, w)
      else
        (let app1 = app\<lparr>app_log := app_log app @ [''MCPAgent cleanup'']\<rparr>
         in (case cleanup_context w of
               (None, w') \<Rightarrow>
                 (None, app1\<lparr>app_context := None, app_initialized := False\<rparr>, w')
             | (Some CancelledError, w') \<Rightarrow>
                 (None,
                  app1\<lparr>app_log := app_log app1 @ [''Cleanup cancelled error during shutdown''],
                       app_context := None, app_initialized := False\<rparr>,
                  w')
             | (Some e, w') \<Rightarrow> (Some e, app1, w'))))"

text \<open>
  \<^verbatim>\<open>MCPApp.run\<close> with the body of the \<^verbatim>\<open>async with\<close> block: the body gets the application
  and returns its value or the exception it was left with. An exception raised in the
  \<^verbatim>\<open>finally\<close> clause replaces that of the body.
\<close>

definition run ::
  "('w \<Rightarrow> (exn + Context) \<times> 'w) \<Rightarrow> ('w \<Rightarrow> exn option \<times> 'w)
     \<Rightarrow> (MCPApp \<Rightarrow> 'w \<Rightarrow> (exn + 'r) \<times> MCPApp \<times> 'w)
     \<Rightarrow> MCPApp \<Rightarrow> 'w \<Rightarrow> (exn + 'r) \<times> MCPApp \<times> 'w" where
  "run initialize_context cleanup_context body app w =
     (case initialize initialize_context app w of
        (Some e, app1, w1) \<Rightarrow> (Inl e, app1, w1)
      | (None, app1, w1) \<Rightarrow>
          (case body app1 w1 of
             (r, app2, w2) \<Rightarrow>
               (case cleanup cleanup_context app2 w2 of
                  (Some e, app3, w3) \<Rightarrow> (Inl e, app3, w3)
                | (None, app3, w3) \<Rightarrow> (r, app3, w3))))"

text \<open>
  Modelled from the spec: \<^verbatim>\<open>register\<close> of the task registry, whose class is not in this
  source. Registration under a name already present overwrites the entry.
\<close>

definition register ::
  "string \<Rightarrow> fref \<Rightarrow> metadata \<Rightarrow> (string \<times> fref \<times> metadata) list \<Rightarrow> (string \<times> fref \<times> metadata) list" where
  "register nm func md reg = dict_set nm (func, md) reg"

text \<open>
  \<^verbatim>\<open>workflow_task(name, schedule_to_close_timeout, retry_policy, **kwargs)(func)\<close>. A
  \<^verbatim>\<open>timedelta\<close> is its number of microseconds; \<^verbatim>\<open>x or y\<close> takes \<^verbatim>\<open>y\<close> when \<^verbatim>\<open>x\<close> is
  \<^verbatim>\<open>None\<close>, an empty string, a zero duration or an empty dictionary. The dictionary display
  \<^verbatim>\<open>{..., **kwargs}\<close> sets the three fixed keys first and the keys of \<^verbatim>\<open>kwargs\<close> after them.
  Python binds the keywords \<^verbatim>\<open>name\<close>, \<^verbatim>\<open>schedule_to_close_timeout\<close> and \<^verbatim>\<open>retry_policy\<close>
  to the parameters of these names, so they are never keys of \<^verbatim>\<open>kwargs\<close>. The message of
  the \<^verbatim>\<open>TypeError\<close> is formatted from \<^verbatim>\<open>func.__name__\<close> before the exception is raised. The
  registration comes before the two calls of \<^verbatim>\<open>setattr\<close> and stays when they fail.
\<close>

definition minutes :: "int \<Rightarrow> int" where
  "minutes n = n * 60 * 1000000"

definition workflow_task ::
  "string option \<Rightarrow> int option \<Rightarrow> (string \<times> string) list option \<Rightarrow> metadata
     \<Rightarrow> fref \<Rightarrow> MCPApp \<Rightarrow> store \<Rightarrow> (exn + fref) \<times> MCPApp \<times> store" where
  "workflow_task nm schedule_to_close_timeout retry_policy kwargs func app st =
     (let f = st func in
      if \<not> co_is_coroutine f then
        (case co_name f of
           None \<Rightarrow> (Inl (AttributeError ''__name__''), app, st)
         | Some n \<Rightarrow> (Inl (TypeError (''Function '' @ n @ '' must be async.'')), app, st))
      else
        (case (if truthy nm then Inr (case nm of Some n \<Rightarrow> n | None \<Rightarrow> [])
               else (case co_module f of
                       None \<Rightarrow> Inl (AttributeError ''__module__'')
                     | Some m \<Rightarrow>
                         (case co_qualname f of
                            None \<Rightarrow> Inl (AttributeError ''__qualname__'')
                          | Some q \<Rightarrow> Inr (m @ ''.'' @ q)))) of
           Inl e \<Rightarrow> (Inl e, app, st)
         | Inr actual_name \<Rightarrow>
             (let timeout = (case schedule_to_close_timeout of
                               None \<Rightarrow> minutes 10
                             | Some t \<Rightarrow> if t = 0 then minutes 10 else t);
                  md = fold (\<lambda>(k, v). dict_set k v) kwargs
                         [(''activity_name'', MStr actual_name),
                          (''schedule_to_close_timeout'', MTimeout timeout),
                          (''retry_policy'', MDict (case retry_policy of None \<Rightarrow> [] | Some p \<Rightarrow> p))]
              in (case context_of app of
                    Inl e \<Rightarrow> (Inl e, app, st)
                  | Inr c \<Rightarrow>
                      (let app' = app\<lparr>app_context :=
                                    Some (c\<lparr>task_registry := register actual_name func md (task_registry c)\<rparr>)\<rparr>
                       in if \<not> co_settable f then
                            (Inl (AttributeError ''is_workflow_task''), app', st)
                          else
                            (Inr func, app',
                             st(func := f\<lparr>co_attrs :=
                                  dict_set ''execution_metadata'' (MMeta md)
                                    (dict_set ''is_workflow_task'' (MBool True) (co_attrs f))\<rparr>)))))))"

section \<open>The registry of declared agents\<close>

text \<open>
  \<^verbatim>\<open>mcp_agent/core/decorator_app.py\<close>. In \<^verbatim>\<open>RequestParams\<close>, a class outside this source,
  a field that was not given is \<^verbatim>\<open>None\<close> here and stands for the default of the class.
\<close>

record RequestParams =
  rp_model :: "string option"
  rp_use_history :: "bool option"
  rp_maxTokens :: "int option"

record AgentConfig =
  cfg_name :: string
  cfg_instruction :: string
  cfg_servers :: "string list"
  cfg_model :: "string option"
  cfg_use_history :: bool
  cfg_default_request_params :: "RequestParams option"

text \<open>
  An entry of \<^verbatim>\<open>self.agents\<close>: the tag \<^verbatim>\<open>type\<close> with the keys that the decorator of this
  type stores beside \<^verbatim>\<open>config\<close> (child agents; fan-out and fan-in; optimizer, evaluator,
  minimum rating and maximum number of refinements).
\<close>

datatype agent_data =
    BasicData AgentConfig
  | OrchestratorData AgentConfig "string list"
  | ParallelData AgentConfig "string list" string
  | EvaluatorOptimizerData AgentConfig string string string int

type_synonym registry = "(string \<times> agent_data) list"

record MCPAgentDecorator =
  args_model :: "string option"
  app :: MCPApp
  agents :: registry

text \<open>
  \<^verbatim>\<open>_get_model_factory\<close>. \<^verbatim>\<open>ModelFactory.create_factory\<close> is outside this source and is a
  parameter; it receives the model specification the function has settled on, and the
  request parameters carrying it. The calls of \<^verbatim>\<open>print\<close> are left out.
\<close>

definition get_model_factory ::
  "(string option \<Rightarrow> RequestParams \<Rightarrow> exn + 'f) \<Rightarrow> MCPAgentDecorator
     \<Rightarrow> string option \<Rightarrow> RequestParams option \<Rightarrow> exn + 'f" where
  "get_model_factory create_factory self model request_params =
     (case context_of (app self) of
        Inl e \<Rightarrow> Inl e
      | Inr c \<Rightarrow>
          (let model_spec = default_model (config c);
               model_spec = (if truthy (args_model self) then args_model self else model_spec);
               model_spec = (if truthy model then model else model_spec);
               request_params =
                 (case request_params of
                    Some rp \<Rightarrow> rp\<lparr>rp_model := model_spec\<rparr>
                  | None \<Rightarrow> \<lparr>rp_model = model_spec, rp_use_history = None, rp_maxTokens = None\<rparr>)
           in create_factory model_spec request_params))"

text \<open>
  The objects built at run time: a basic agent, or a workflow in its wrapper, with the
  arguments its constructor was given.
\<close>

datatype QualityRating = POOR | FAIR | GOOD | EXCELLENT

datatype 'f runtime =
    AgentRT AgentConfig
  | OrchestratorRT string string "'f runtime list" 'f RequestParams
  | ParallelRT string string "'f runtime list" "'f runtime" 'f "RequestParams option"
  | EvaluatorOptimizerRT "'f runtime" "'f runtime" QualityRating int 'f

text \<open>\<^verbatim>\<open>QualityRating[name]\<close>.\<close>

definition rating_of_name :: "string \<Rightarrow> exn + QualityRating" where
  "rating_of_name s =
     (if s = ''POOR'' then Inr POOR
      else if s = ''FAIR'' then Inr FAIR
      else if s = ''GOOD'' then Inr GOOD
      else if s = ''EXCELLENT'' then Inr EXCELLENT
      else Inl (KeyError s))"

text \<open>\<^verbatim>\<open>[d[k] for k in ks]\<close>: the first key that is missing raises.\<close>

fun lookup_all :: "(string \<times> 'a) list \<Rightarrow> string list \<Rightarrow> exn + 'a list" where
  "lookup_all d [] = Inr []"
| "lookup_all d (k # ks) =
     (case map_of d k of
        None \<Rightarrow> Inl (KeyError k)
      | Some v \<Rightarrow> (case lookup_all d ks of Inl e \<Rightarrow> Inl e | Inr vs \<Rightarrow> Inr (v # vs)))"

text \<open>
  The body of the loop of \<^verbatim>\<open>_create_orchestrators\<close> for one orchestrator.
  \<^verbatim>\<open>ModelFactory.parse_model_string\<close>, outside this source, is a parameter that returns the
  model name.
\<close>

definition create_orchestrator ::
  "(string option \<Rightarrow> exn + string) \<Rightarrow> (string option \<Rightarrow> RequestParams \<Rightarrow> exn + 'f)
     \<Rightarrow> MCPAgentDecorator \<Rightarrow> (string \<times> 'f runtime) list \<Rightarrow> AgentConfig \<Rightarrow> string list
     \<Rightarrow> exn + 'f runtime" where
  "create_orchestrator parse_model_string create_factory self active_agents cfg child_names =
     (case parse_model_string (cfg_model cfg) of
        Inl e \<Rightarrow> Inl e
      | Inr resolved_model \<Rightarrow>
          (let base_params =
                 (case cfg_default_request_params cfg of
                    Some rp \<Rightarrow> rp\<lparr>rp_use_history := Some (cfg_use_history cfg),
                                 rp_model := Some resolved_model\<rparr>
                  | None \<Rightarrow> \<lparr>rp_model = Some resolved_model,
                             rp_use_history = Some (cfg_use_history cfg), rp_maxTokens = None\<rparr>)
           in (case get_model_factory create_factory self (cfg_model cfg) (Some base_params) of
                 Inl e \<Rightarrow> Inl e
               | Inr llm_factory \<Rightarrow>
                   (case lookup_all active_agents child_names of
                      Inl e \<Rightarrow> Inl e
                    | Inr child_agents \<Rightarrow>
                        Inr (OrchestratorRT (cfg_name cfg) (cfg_instruction cfg) child_agents
                               llm_factory base_params)))))"

fun create_orchestrators_loop ::
  "(string option \<Rightarrow> exn + string) \<Rightarrow> (string option \<Rightarrow> RequestParams \<Rightarrow> exn + 'f)
     \<Rightarrow> MCPAgentDecorator \<Rightarrow> (string \<times> 'f runtime) list \<Rightarrow> registry
     \<Rightarrow> (string \<times> 'f runtime) list \<Rightarrow> exn + (string \<times> 'f runtime) list" where
  "create_orchestrators_loop pms cf self active_agents [] orchestrators = Inr orchestrators"
| "create_orchestrators_loop pms cf self active_agents ((nm, OrchestratorData cfg child_names) # items) orchestrators =
     (case create_orchestrator pms cf self active_agents cfg child_names of
        Inl e \<Rightarrow> Inl e
      | Inr orchestrator \<Rightarrow>
          create_orchestrators_loop pms cf self active_agents items
            (dict_set nm orchestrator orchestrators))"
| "create_orchestrators_loop pms cf self active_agents (item # items) orchestrators =
     create_orchestrators_loop pms cf self active_agents items orchestrators"

definition create_orchestrators ::
  "(string option \<Rightarrow> exn + string) \<Rightarrow> (string option \<Rightarrow> RequestParams \<Rightarrow> exn + 'f)
     \<Rightarrow> MCPAgentDecorator \<Rightarrow> (string \<times> 'f runtime) list \<Rightarrow> exn + (string \<times> 'f runtime) list" where
  "create_orchestrators pms cf self active_agents =
     create_orchestrators_loop pms cf self active_agents (agents self) []"

text \<open>
  The body of the loop of \<^verbatim>\<open>_create_evaluator_optimizers\<close> for one workflow. The two
  references are read with \<^verbatim>\<open>get\<close>; an agent object is never false, so the test fails for
  a missing name only.
\<close>

definition create_evaluator_optimizer ::
  "(string option \<Rightarrow> RequestParams \<Rightarrow> exn + 'f) \<Rightarrow> MCPAgentDecorator
     \<Rightarrow> (string \<times> 'f runtime) list \<Rightarrow> string \<Rightarrow> string \<Rightarrow> string \<Rightarrow> string \<Rightarrow> int
     \<Rightarrow> exn + 'f runtime" where
  "create_evaluator_optimizer create_factory self active_agents nm optimizer_name evaluator_name
       min_rating max_refinements =
     (case (map_of active_agents optimizer_name, map_of active_agents evaluator_name) of
        (Some optimizer, Some evaluator) \<Rightarrow>
          (let optimizer_model = (case optimizer of AgentRT c \<Rightarrow> cfg_model c | _ \<Rightarrow> None)
           in (case rating_of_name min_rating of
                 Inl e \<Rightarrow> Inl e
               | Inr rating \<Rightarrow>
                   (case get_model_factory create_factory self optimizer_model None of
                      Inl e \<Rightarrow> Inl e
                    | Inr llm_factory \<Rightarrow>
                        Inr (EvaluatorOptimizerRT optimizer evaluator rating max_refinements
                               llm_factory))))
      | _ \<Rightarrow>
          Inl (ValueError (''Missing agents for workflow '' @ nm @ '': optimizer='' @ optimizer_name
                 @ '', evaluator='' @ evaluator_name)))"

fun create_evaluator_optimizers_loop ::
  "(string option \<Rightarrow> RequestParams \<Rightarrow> exn + 'f) \<Rightarrow> MCPAgentDecorator
     \<Rightarrow> (string \<times> 'f runtime) list \<Rightarrow> registry
     \<Rightarrow> (string \<times> 'f runtime) list \<Rightarrow> exn + (string \<times> 'f runtime) list" where
  "create_evaluator_optimizers_loop cf self active_agents [] workflows = Inr workflows"
| "create_evaluator_optimizers_loop cf self active_agents
       ((nm, EvaluatorOptimizerData cfg optimizer_name evaluator_name min_rating max_refinements) # items)
       workflows =
     (case create_evaluator_optimizer cf self active_agents nm optimizer_name evaluator_name
             min_rating max_refinements of
        Inl e \<Rightarrow> Inl e
      | Inr workflow \<Rightarrow>
          create_evaluator_optimizers_loop cf self active_agents items
            (dict_set nm workflow workflows))"
| "create_evaluator_optimizers_loop cf self active_agents (item # items) workflows =
     create_evaluator_optimizers_loop cf self active_agents items workflows"

definition create_evaluator_optimizers ::
  "(string option \<Rightarrow> RequestParams \<Rightarrow> exn + 'f) \<Rightarrow> MCPAgentDecorator
     \<Rightarrow> (string \<times> 'f runtime) list \<Rightarrow> exn + (string \<times> 'f runtime) list" where
  "create_evaluator_optimizers cf self active_agents =
     create_evaluator_optimizers_loop cf self active_agents (agents self) []"

section \<open>Dependency order of the parallel agents\<close>

text \<open>
  \<^verbatim>\<open>_get_parallel_dependencies\<close>. The sets \<^verbatim>\<open>visited\<close> and \<^verbatim>\<open>path\<close> are changed in place by
  the code, so both are returned with the list of names. The message of the exception joins
  the elements of the set \<^verbatim>\<open>path\<close> in the order in which Python iterates over the set, an
  order that the hashes of the names decide: \<open>iter\<close> stands for it.
\<close>

definition circular_message :: "(string set \<Rightarrow> string list) \<Rightarrow> string set \<Rightarrow> string \<Rightarrow> string" where
  "circular_message iter path nm =
     ''Circular dependency detected: '' @ join '' -> '' (iter path) @ '' -> '' @ nm"

function get_parallel_dependencies ::
    "(string set \<Rightarrow> string list) \<Rightarrow> registry \<Rightarrow> string \<Rightarrow> string set \<Rightarrow> string set
       \<Rightarrow> exn + (string list \<times> string set \<times> string set)"
  and fan_out_loop ::
    "(string set \<Rightarrow> string list) \<Rightarrow> registry \<Rightarrow> string list \<Rightarrow> string set \<Rightarrow> string set
       \<Rightarrow> string list \<Rightarrow> exn + (string list \<times> string set \<times> string set)"
where
  "get_parallel_dependencies iter ags nm visited path =
     (if nm \<in> path then Inl (ValueError (circular_message iter path nm))
      else if nm \<in> visited then Inr ([], visited, path)
      else (case map_of ags nm of
              None \<Rightarrow> Inr ([], visited, path)
            | Some (ParallelData cfg fan_out fan_in) \<Rightarrow>
                (case fan_out_loop iter ags fan_out visited (insert nm path) [] of
                   Inl e \<Rightarrow> Inl e
                 | Inr (deps, visited', path') \<Rightarrow>
                     Inr (deps @ [nm], insert nm visited', path' - {nm}))
            | Some _ \<Rightarrow> Inr ([], visited, path)))"
| "fan_out_loop iter ags [] visited path deps = Inr (deps, visited, path)"
| "fan_out_loop iter ags (f # fs) visited path deps =
     (case get_parallel_dependencies iter ags f visited path of
        Inl e \<Rightarrow> Inl e
      | Inr (d, visited', path') \<Rightarrow> fan_out_loop iter ags fs visited' path' (deps @ d))"
  by pat_completeness auto

text \<open>
  Termination: a recursive call is made with a registered name added to \<^verbatim>\<open>path\<close>, and a call
  that returns leaves \<^verbatim>\<open>path\<close> as it found it.
\<close>

lemma path_restored_dom:
  "get_parallel_dependencies_fan_out_loop_dom (Inl (iter, ags, nm, visited, path)) \<Longrightarrow>
     get_parallel_dependencies iter ags nm visited path = Inr (d, v', p') \<Longrightarrow> p' = path"
  "get_parallel_dependencies_fan_out_loop_dom (Inr (iter, ags, fs, visited, path, deps)) \<Longrightarrow>
     fan_out_loop iter ags fs visited path deps = Inr (d, v', p') \<Longrightarrow> p' = path"
proof (induction iter ags nm visited path and iter ags fs visited path deps
       arbitrary: d v' p' and d v' p'
       rule: get_parallel_dependencies_fan_out_loop.pinduct)
  case (1 iter ags nm visited path)
  note eq = get_parallel_dependencies.psimps [OF "1.hyps"]
  show ?case
  proof (cases "nm \<in> path \<or> nm \<in> visited")
    case True
    with "1.prems" eq show ?thesis by (auto split: if_splits)
  next
    case False
    show ?thesis
    proof (cases "map_of ags nm")
      case None
      with False "1.prems" eq show ?thesis by simp
    next
      case (Some a)
      show ?thesis
      proof (cases a)
        case (ParallelData cfg fan_out fan_in)
        with False Some "1.prems" eq obtain ds vs ps where
          r: "fan_out_loop iter ags fan_out visited (insert nm path) [] = Inr (ds, vs, ps)"
          and p: "p' = ps - {nm}"
          by (auto split: sum.splits)
        from False Some ParallelData have "ps = insert nm path"
          using "1.IH" [OF _ _ Some ParallelData r] by simp
        with p False show ?thesis by auto
      qed (use False Some "1.prems" eq in auto)
    qed
  qed
next
  case (2 iter ags visited path deps)
  then show ?case by (simp add: fan_out_loop.psimps)
next
  case (3 iter ags f fs visited path deps)
  note eq = fan_out_loop.psimps(2) [OF "3.hyps"]
  from "3.prems" eq obtain d1 v1 p1 where
    r: "get_parallel_dependencies iter ags f visited path = Inr (d1, v1, p1)"
    and l: "fan_out_loop iter ags fs v1 p1 (deps @ d1) = Inr (d, v', p')"
    by (auto split: sum.splits)
  from "3.IH"(1) [OF r] have "p1 = path" .
  moreover from "3.IH"(2) [OF r refl refl l] have "p' = p1" .
  ultimately show ?case by simp
qed

termination get_parallel_dependencies
proof (relation "inv_image (less_than <*lex*> less_than)
    (\<lambda>x. case x of
       Inl (iter, ags, nm, visited, path) \<Rightarrow> (card (fst ` set ags - path), 0)
     | Inr (iter, ags, fs, visited, path, deps) \<Rightarrow> (card (fst ` set ags - path), Suc (length fs)))",
    goal_cases)
  case 1
  show ?case by (intro wf_inv_image wf_lex_prod wf_less_than)
next
  case (2 iter ags nm visited path x2 cfg fan_out fan_in)
  from 2 have "(nm, x2) \<in> set ags" by (simp add: map_of_SomeD)
  then have "nm \<in> fst ` set ags" by force
  with 2 have "fst ` set ags - insert nm path \<subset> fst ` set ags - path" by auto
  then have "card (fst ` set ags - insert nm path) < card (fst ` set ags - path)"
    by (intro psubset_card_mono) auto
  then show ?case by simp
next
  case 3
  then show ?case by simp
next
  case (4 iter ags f fs visited path deps x2 d y visited' path')
  from 4 have "get_parallel_dependencies iter ags f visited path = Inr (d, visited', path')"
    by simp
  moreover from 4 have "get_parallel_dependencies_fan_out_loop_dom (Inl (iter, ags, f, visited, path))"
    by simp
  ultimately have "path' = path" by (rule path_restored_dom(1) [rotated])
  then show ?case by simp
qed

declare get_parallel_dependencies.simps [simp del]

text \<open>
  \<^verbatim>\<open>_create_parallel_agents\<close>. First the construction of one parallel workflow from the
  agents built so far: the fan-out agents, each taken from \<^verbatim>\<open>parallel_agents\<close> when it is
  there and from \<^verbatim>\<open>active_agents\<close> otherwise, then the fan-in agent, then the factory.
\<close>

fun fan_out_agents_of ::
  "(string \<times> 'f runtime) list \<Rightarrow> (string \<times> 'f runtime) list \<Rightarrow> string list \<Rightarrow> exn + 'f runtime list" where
  "fan_out_agents_of parallel_agents active_agents [] = Inr []"
| "fan_out_agents_of parallel_agents active_agents (k # ks) =
     (case (case map_of parallel_agents k of
              Some p \<Rightarrow> Inr p
            | None \<Rightarrow> (case map_of active_agents k of Some a \<Rightarrow> Inr a | None \<Rightarrow> Inl (KeyError k))) of
        Inl e \<Rightarrow> Inl e
      | Inr v \<Rightarrow>
          (case fan_out_agents_of parallel_agents active_agents ks of
             Inl e \<Rightarrow> Inl e
           | Inr vs \<Rightarrow> Inr (v # vs)))"

definition create_parallel ::
  "(string option \<Rightarrow> RequestParams \<Rightarrow> exn + 'f) \<Rightarrow> MCPAgentDecorator
     \<Rightarrow> (string \<times> 'f runtime) list \<Rightarrow> (string \<times> 'f runtime) list \<Rightarrow> string \<Rightarrow> exn + 'f runtime" where
  "create_parallel create_factory self active_agents parallel_agents agent_name =
     (case map_of (agents self) agent_name of
        None \<Rightarrow> Inl (KeyError agent_name)
      | Some (ParallelData cfg fan_out fan_in) \<Rightarrow>
          (case fan_out_agents_of parallel_agents active_agents fan_out of
             Inl e \<Rightarrow> Inl e
           | Inr fan_out_agents \<Rightarrow>
               (case map_of active_agents fan_in of
                  None \<Rightarrow> Inl (KeyError fan_in)
                | Some fan_in_agent \<Rightarrow>
                    (case get_model_factory create_factory self (cfg_model cfg) None of
                       Inl e \<Rightarrow> Inl e
                     | Inr llm_factory \<Rightarrow>
                         Inr (ParallelRT (cfg_name cfg) (cfg_instruction cfg) fan_out_agents
                                fan_in_agent llm_factory (cfg_default_request_params cfg)))))
      | Some _ \<Rightarrow> Inl (KeyError ''fan_out''))"

text \<open>The inner loop, over the names in \<^verbatim>\<open>ordered_agents\<close>.\<close>

fun create_ordered ::
  "(string option \<Rightarrow> RequestParams \<Rightarrow> exn + 'f) \<Rightarrow> MCPAgentDecorator
     \<Rightarrow> (string \<times> 'f runtime) list \<Rightarrow> string list \<Rightarrow> (string \<times> 'f runtime) list
     \<Rightarrow> exn + (string \<times> 'f runtime) list" where
  "create_ordered cf self active_agents [] parallel_agents = Inr parallel_agents"
| "create_ordered cf self active_agents (agent_name # rest) parallel_agents =
     (if map_of parallel_agents agent_name \<noteq> None then
        create_ordered cf self active_agents rest parallel_agents
      else
        (case create_parallel cf self active_agents parallel_agents agent_name of
           Inl e \<Rightarrow> Inl e
         | Inr parallel \<Rightarrow>
             create_ordered cf self active_agents rest
               (dict_set agent_name parallel parallel_agents)))"

text \<open>
  The outer loop, over the names of the parallel agents in the order of the registry. The
  dictionary it returns lists the agents in the order in which they were built. A
  \<^verbatim>\<open>ValueError\<close> of the resolution is raised again with the name of the agent in front of
  its message.
\<close>

fun create_parallel_loop ::
  "(string set \<Rightarrow> string list) \<Rightarrow> (string option \<Rightarrow> RequestParams \<Rightarrow> exn + 'f) \<Rightarrow> MCPAgentDecorator
     \<Rightarrow> (string \<times> 'f runtime) list \<Rightarrow> string list \<Rightarrow> string set \<Rightarrow> (string \<times> 'f runtime) list
     \<Rightarrow> exn + (string \<times> 'f runtime) list" where
  "create_parallel_loop iter cf self active_agents [] visited parallel_agents = Inr parallel_agents"
| "create_parallel_loop iter cf self active_agents (nm # names) visited parallel_agents =
     (if nm \<in> visited then
        create_parallel_loop iter cf self active_agents names visited parallel_agents
      else
        (case get_parallel_dependencies iter (agents self) nm visited {} of
           Inl (ValueError msg) \<Rightarrow>
             Inl (ValueError (''Error creating parallel agent '' @ nm @ '': '' @ msg))
         | Inl e \<Rightarrow> Inl e
         | Inr (ordered_agents, visited', path') \<Rightarrow>
             (case create_ordered cf self active_agents ordered_agents parallel_agents of
                Inl e \<Rightarrow> Inl e
              | Inr parallel_agents' \<Rightarrow>
                  create_parallel_loop iter cf self active_agents names visited' parallel_agents')))"

definition parallel_names :: "registry \<Rightarrow> string list" where
  "parallel_names ags =
     map fst (filter (\<lambda>(nm, agent_data). case agent_data of ParallelData _ _ _ \<Rightarrow> True | _ \<Rightarrow> False) ags)"

definition create_parallel_agents ::
  "(string set \<Rightarrow> string list) \<Rightarrow> (string option \<Rightarrow> RequestParams \<Rightarrow> exn + 'f) \<Rightarrow> MCPAgentDecorator
     \<Rightarrow> (string \<times> 'f runtime) list \<Rightarrow> exn + (string \<times> 'f runtime) list" where
  "create_parallel_agents iter cf self active_agents =
     create_parallel_loop iter cf self active_agents (parallel_names (agents self)) {} []"

section \<open>The run scope of the decorator object\<close>

text \<open>
  \<^verbatim>\<open>MCPAgentDecorator.run\<close>, inside the run scope of its application. The creation of the
  agents (the statements before \<^verbatim>\<open>try\<close>) is a parameter that returns the dictionary
  \<^verbatim>\<open>active_agents\<close> or the exception raised; so is \<^verbatim>\<open>__aexit__\<close> of a basic agent. The
  \<^verbatim>\<open>finally\<close> clause closes the basic agents in the order of the dictionary and stops at
  the first exception, which replaces that of the body.
\<close>

fun close_agents ::
  "(AgentConfig \<Rightarrow> 'w \<Rightarrow> exn option \<times> 'w) \<Rightarrow> (string \<times> 'f runtime) list \<Rightarrow> 'w \<Rightarrow> exn option \<times> 'w" where
  "close_agents aexit [] w = (None, w)"
| "close_agents aexit ((nm, AgentRT cfg) # rest) w =
     (case aexit cfg w of
        (Some e, w') \<Rightarrow> (Some e, w')
      | (None, w') \<Rightarrow> close_agents aexit rest w')"
| "close_agents aexit (other # rest) w = close_agents aexit rest w"

definition decorator_body ::
  "(MCPAgentDecorator \<Rightarrow> 'w \<Rightarrow> (exn + (string \<times> 'f runtime) list) \<times> 'w)
     \<Rightarrow> (AgentConfig \<Rightarrow> 'w \<Rightarrow> exn option \<times> 'w)
     \<Rightarrow> ((string \<times> 'f runtime) list \<Rightarrow> MCPApp \<Rightarrow> 'w \<Rightarrow> (exn + 'r) \<times> MCPApp \<times> 'w)
     \<Rightarrow> MCPAgentDecorator \<Rightarrow> MCPApp \<Rightarrow> 'w \<Rightarrow> (exn + 'r) \<times> MCPApp \<times> 'w" where
  "decorator_body create_agents aexit body self agent_app w =
     (case create_agents (self\<lparr>app := agent_app\<rparr>) w of
        (Inl e, w1) \<Rightarrow> (Inl e, agent_app, w1)
      | (Inr active_agents, w1) \<Rightarrow>
          (case body active_agents agent_app w1 of
             (r, app2, w2) \<Rightarrow>
               (case close_agents aexit active_agents w2 of
                  (Some e, w3) \<Rightarrow> (Inl e, app2, w3)
                | (None, w3) \<Rightarrow> (r, app2, w3))))"

definition decorator_run ::
  "('w \<Rightarrow> (exn + Context) \<times> 'w) \<Rightarrow> ('w \<Rightarrow> exn option \<times> 'w)
     \<Rightarrow> (MCPAgentDecorator \<Rightarrow> 'w \<Rightarrow> (exn + (string \<times> 'f runtime) list) \<times> 'w)
     \<Rightarrow> (AgentConfig \<Rightarrow> 'w \<Rightarrow> exn option \<times> 'w)
     \<Rightarrow> ((string \<times> 'f runtime) list \<Rightarrow> MCPApp \<Rightarrow> 'w \<Rightarrow> (exn + 'r) \<times> MCPApp \<times> 'w)
     \<Rightarrow> MCPAgentDecorator \<Rightarrow> 'w \<Rightarrow> (exn + 'r) \<times> MCPApp \<times> 'w" where
  "decorator_run initialize_context cleanup_context create_agents aexit body self w =
     run initialize_context cleanup_context (decorator_body create_agents aexit body self)
       (app self) w"

text \<open>
  The graph that the resolution walks: the fan-out references of the registered parallel
  agents. Agents of another type and names that are not registered have no outgoing edge.
\<close>

definition fan_out_of :: "registry \<Rightarrow> string \<Rightarrow> string list" where
  "fan_out_of ags nm =
     (case map_of ags nm of Some (ParallelData cfg fan_out fan_in) \<Rightarrow> fan_out | _ \<Rightarrow> [])"

definition is_parallel :: "registry \<Rightarrow> string \<Rightarrow> bool" where
  "is_parallel ags nm =
     (case map_of ags nm of Some (ParallelData cfg fan_out fan_in) \<Rightarrow> True | _ \<Rightarrow> False)"

definition edges :: "registry \<Rightarrow> (string \<times> string) set" where
  "edges ags = {(a, b). b \<in> set (fan_out_of ags a)}"

text \<open>
  A list of names is in dependency order over a set \<open>V\<close> of names already placed when the
  parallel agents in the fan-out of each name are in \<open>V\<close> or earlier in the list.
\<close>

fun dependency_order :: "registry \<Rightarrow> string set \<Rightarrow> string list \<Rightarrow> bool" where
  "dependency_order ags V [] = True"
| "dependency_order ags V (x # xs) =
     ((\<forall>b \<in> set (fan_out_of ags x). is_parallel ags b \<longrightarrow> b \<in> V)
      \<and> dependency_order ags (insert x V) xs)"

definition follows :: "registry \<Rightarrow> string \<Rightarrow> string \<Rightarrow> bool" where
  "follows ags a b = (b \<in> set (fan_out_of ags a))"

text \<open>\<open>before xs b a\<close>: the name \<open>b\<close> stands at an earlier position of \<open>xs\<close> than \<open>a\<close>.\<close>

definition before :: "'a list \<Rightarrow> 'a \<Rightarrow> 'a \<Rightarrow> bool" where
  "before xs b a = (\<exists>i j. i < j \<and> j < length xs \<and> xs ! i = b \<and> xs ! j = a)"

text \<open>What a call that returns has done to its two sets, and what it has returned.\<close>

definition returned_ok ::
  "registry \<Rightarrow> string set \<Rightarrow> string set \<Rightarrow> string list \<Rightarrow> string set \<Rightarrow> string set \<Rightarrow> bool" where
  "returned_ok ags visited path d v' p' =
     (p' = path \<and> v' = visited \<union> set d \<and> distinct d \<and> set d \<inter> visited = {}
      \<and> set d \<inter> path = {} \<and> dependency_order ags visited d \<and> (\<forall>x \<in> set d. is_parallel ags x))"

text \<open>The value returned, if any, without the exception raised otherwise.\<close>

definition outcome :: "exn + 'a \<Rightarrow> 'a option" where
  "outcome r = (case r of Inl e \<Rightarrow> None | Inr v \<Rightarrow> Some v)"




text \<open>Two registries for the examples: two parallel agents that fan out to each other, and
  three parallel agents in layers over a basic agent and an unregistered name.\<close>

definition example_config :: "string \<Rightarrow> AgentConfig" where
  "example_config nm =
     \<lparr>cfg_name = nm, cfg_instruction = '''', cfg_servers = [], cfg_model = None,
      cfg_use_history = True, cfg_default_request_params = None\<rparr>"

definition cyclic_registry :: registry where
  "cyclic_registry =
     [(''X'', ParallelData (example_config ''X'') [''Y''] ''f''),
      (''Y'', ParallelData (example_config ''Y'') [''X''] ''f'')]"

definition layered_registry :: registry where
  "layered_registry =
     [(''top'', ParallelData (example_config ''top'') [''mid'', ''a''] ''f''),
      (''mid'', ParallelData (example_config ''mid'') [''a'', ''low''] ''f''),
      (''low'', ParallelData (example_config ''low'') [''b''] ''f''),
      (''a'', BasicData (example_config ''a''))]"

text \<open>
  The rule of precedence as the specification words it: the first value that is not null,
  scanning call site, command-line override, file configuration and baseline in this order.
\<close>

fun first_non_null :: "string option list \<Rightarrow> string option" where
  "first_non_null [] = None"
| "first_non_null (None # xs) = first_non_null xs"
| "first_non_null (Some v # xs) = Some v"

definition resolve_spec ::
  "string option \<Rightarrow> string option \<Rightarrow> string option \<Rightarrow> string option \<Rightarrow> string option" where
  "resolve_spec call_site cli_override file_config baseline =
     first_non_null [call_site, cli_override, file_config, baseline]"

text \<open>
  A decorator object inside its run scope: the application is initialized with the given
  settings. The model that \<^verbatim>\<open>_get_model_factory\<close> settles on is what it passes to the
  factory.
\<close>

definition running_decorator :: "string option \<Rightarrow> Settings \<Rightarrow> registry \<Rightarrow> MCPAgentDecorator" where
  "running_decorator cli settings ags =
     \<lparr>args_model = cli,
      app = \<lparr>app_name = ''app'', app_workflows = [],
             app_context = Some \<lparr>config = settings, task_registry = []\<rparr>,
             app_initialized = True, app_log = []\<rparr>,
      agents = ags\<rparr>"

definition resolved_model :: "MCPAgentDecorator \<Rightarrow> string option \<Rightarrow> exn + string option" where
  "resolved_model self model = get_model_factory (\<lambda>model_spec request_params. Inr model_spec) self model None"

text \<open>A file system with two configuration files, for the examples.\<close>

definition two_configs :: filesystem where
  "two_configs p =
     (if p = [''a.yaml''] then Some [(''default_model'', YStr ''sonnet'')]
      else if p = [''b.yaml''] then Some [(''default_model'', YStr ''gpt-4o'')]
      else None)"

text \<open>An application object before its first run scope, and a context, for the examples.\<close>

definition fresh_app :: MCPApp where
  "fresh_app =
     \<lparr>app_name = ''app'', app_workflows = [], app_context = None,
      app_initialized = False, app_log = []\<rparr>"

definition example_context :: Context where
  "example_context = \<lparr>config = \<lparr>default_model = Some ''haiku''\<rparr>, task_registry = []\<rparr>"

text \<open>
  Callables: an \<^verbatim>\<open>async def\<close> function, a \<^verbatim>\<open>def\<close> function, the \<^verbatim>\<open>functools.partial\<close>
  object of a \<^verbatim>\<open>def\<close> function and that of an \<^verbatim>\<open>async def\<close> function (the class of both
  is defined in the module functools), and an \<^verbatim>\<open>async def\<close> method bound to an instance.
\<close>

definition example_function :: callable_obj where
  "example_function =
     \<lparr>co_name = Some ''fetch'', co_module = Some ''tasks'', co_qualname = Some ''fetch'',
      co_is_coroutine = True, co_settable = True, co_attrs = []\<rparr>"

definition sync_function :: callable_obj where
  "sync_function = example_function\<lparr>co_is_coroutine := False\<rparr>"

definition partial_of_sync_function :: callable_obj where
  "partial_of_sync_function =
     \<lparr>co_name = None, co_module = Some ''functools'', co_qualname = None,
      co_is_coroutine = False, co_settable = True, co_attrs = []\<rparr>"

definition partial_of_async_function :: callable_obj where
  "partial_of_async_function = partial_of_sync_function\<lparr>co_is_coroutine := True\<rparr>"

definition bound_async_method :: callable_obj where
  "bound_async_method =
     \<lparr>co_name = Some ''fetch'', co_module = Some ''tasks'', co_qualname = Some ''Client.fetch'',
      co_is_coroutine = True, co_settable = False, co_attrs = []\<rparr>"

definition running_app :: MCPApp where
  "running_app = fresh_app\<lparr>app_context := Some example_context, app_initialized := True\<rparr>"

text \<open>No variables in the environment or the \<^verbatim>\<open>.env\<close> file, and every other field valid.\<close>

definition no_env :: settings_sources where
  "no_env = \<lparr>environ = (\<lambda>field. None), dotenv = (\<lambda>field. None), other_fields_valid = (\<lambda>config. True)\<rparr>"

section \<open>Prompt messages and their multipart grouping\<close>

text \<open>
  \<^verbatim>\<open>mcp_agent/mcp/prompt_message_multipart.py\<close>. A \<^verbatim>\<open>PromptMessage\<close> has a role and a
  single content part; a \<^verbatim>\<open>PromptMessageMultipart\<close> has a role and a list of parts. The
  role type of \<^verbatim>\<open>mcp.types\<close> is the literal type of the two strings user and assistant.
\<close>

datatype Role = User | Assistant

datatype Content =
    TextContent string
  | ImageContent string string
  | EmbeddedResource string string

record PromptMessage =
  role :: Role
  content :: Content

record PromptMessageMultipart =
  mp_role :: Role
  mp_content :: "Content list"

text \<open>
  The loop of \<^verbatim>\<open>to_multipart\<close>, with its three local variables \<^verbatim>\<open>result\<close>,
  \<^verbatim>\<open>current_group\<close> and \<^verbatim>\<open>current_role\<close> (both \<^verbatim>\<open>None\<close> before the first message)
  passed along; the equation for the empty list is the code after the loop.
\<close>

fun to_multipart_loop ::
  "PromptMessage list \<Rightarrow> PromptMessageMultipart list \<Rightarrow> PromptMessageMultipart option
     \<Rightarrow> Role option \<Rightarrow> PromptMessageMultipart list" where
  "to_multipart_loop [] result current_group current_role =
     (case current_group of None \<Rightarrow> result | Some g \<Rightarrow> result @ [g])"
| "to_multipart_loop (msg # msgs) result current_group current_role =
     (if Some (role msg) \<noteq> current_role then
        to_multipart_loop msgs
          (case current_group of None \<Rightarrow> result | Some g \<Rightarrow> result @ [g])
          (Some \<lparr>mp_role = role msg, mp_content = [content msg]\<rparr>)
          (Some (role msg))
      else
        to_multipart_loop msgs result
          (case current_group of
             None \<Rightarrow> None
           | Some g \<Rightarrow> Some (g\<lparr>mp_content := mp_content g @ [content msg]\<rparr>))
          current_role)"

definition to_multipart :: "PromptMessage list \<Rightarrow> PromptMessageMultipart list" where
  "to_multipart messages =
     (if messages = [] then [] else to_multipart_loop messages [] None None)"

definition from_multipart :: "PromptMessageMultipart \<Rightarrow> PromptMessage list" where
  "from_multipart m =
     map (\<lambda>content_part. \<lparr>role = mp_role m, content = content_part\<rparr>) (mp_content m)"

section \<open>Loading a prompt file as multipart messages\<close>

text \<open>
  \<^verbatim>\<open>mcp_agent/mcp/prompts/prompt_load.py\<close>. The attributes that the class
  \<^verbatim>\<open>PromptMessageMultipart\<close> defines are its three methods; any other name is looked up in
  the classes it inherits from, which belong to a library and are given by the list of
  their attribute names. A name found nowhere raises \<^verbatim>\<open>AttributeError\<close>.
\<close>

datatype class_attr = To_multipart | From_multipart | Parse_get_prompt_result | Inherited string

definition PromptMessageMultipart_getattr :: "string list \<Rightarrow> string \<Rightarrow> exn + class_attr" where
  "PromptMessageMultipart_getattr inherited attr =
     (if attr = ''to_multipart'' then Inr To_multipart
      else if attr = ''from_multipart'' then Inr From_multipart
      else if attr = ''parse_get_prompt_result'' then Inr Parse_get_prompt_result
      else if attr \<in> set inherited then Inr (Inherited attr)
      else Inl (AttributeError attr))"

text \<open>
  \<^verbatim>\<open>load_prompt_multipart\<close>. In the call \<^verbatim>\<open>PromptMessageMultipart.flatten(load_prompt(file))\<close>
  Python evaluates the attribute reference first, then the argument, then the call. The
  loader of \<^verbatim>\<open>load_prompt\<close> and the call of an attribute are parameters.
\<close>

definition load_prompt_multipart ::
  "string list \<Rightarrow> (class_attr \<Rightarrow> PromptMessage list \<Rightarrow> exn + PromptMessageMultipart list)
     \<Rightarrow> ('file \<Rightarrow> exn + PromptMessage list) \<Rightarrow> 'file \<Rightarrow> exn + PromptMessageMultipart list" where
  "load_prompt_multipart inherited call load_prompt file =
     (case PromptMessageMultipart_getattr inherited ''flatten'' of
        Inl e \<Rightarrow> Inl e
      | Inr method \<Rightarrow>
          (case load_prompt file of
             Inl e \<Rightarrow> Inl e
           | Inr messages \<Rightarrow> call method messages))"

section \<open>Precedence of the model\<close>

text \<open>
  The rule of the specification and the code part on a call-site model that is the empty
  string: it is not null, so the rule keeps it, while the code tests it with \<^verbatim>\<open>if model:\<close>
  and goes on to the lower tiers.
\<close>

theorem model_precedence_counterexample:
  "resolved_model (running_decorator None \<lparr>default_model = Some ''sonnet''\<rparr> []) (Some '''')
     \<noteq> Inr (resolve_spec (Some '''') None (Some ''sonnet'') (Some ''haiku''))"
  by (simp add: resolved_model_def running_decorator_def get_model_factory_def context_of_def
      truthy_def resolve_spec_def)

text \<open>
  Claim C1, as amended. The model that \<^verbatim>\<open>_get_model_factory\<close> passes to the factory is the
  call-site model when that is neither null nor empty, else the command-line override when
  that is neither null nor empty, else the default model of the settings. The settings,
  when their other fields are valid, take the value of the configuration mapping when it has
  the key, a null included; when it has not, the value of the variable in the environment,
  else that in the \<^verbatim>\<open>.env\<close> file, and the baseline haiku when there is neither. With baseline
  haiku, file value sonnet and no override, a call-site model gpt-4o gives gpt-4o and no
  call-site model gives sonnet.
\<close>

theorem model_precedence:
  "(app_context (app self) = Some c \<longrightarrow>
      get_model_factory create_factory self model request_params =
        create_factory
          (if truthy model then model
           else if truthy (args_model self) then args_model self
           else default_model (config c))
          (case request_params of
             Some rp \<Rightarrow>
               rp\<lparr>rp_model := (if truthy model then model
                               else if truthy (args_model self) then args_model self
                               else default_model (config c))\<rparr>
           | None \<Rightarrow>
               \<lparr>rp_model = (if truthy model then model
                             else if truthy (args_model self) then args_model self
                             else default_model (config c)),
                rp_use_history = None, rp_maxTokens = None\<rparr>))
   \<and> (other_fields_valid sources file_config \<and> map_of file_config ''default_model'' = Some (YStr s) \<longrightarrow>
        Settings_init sources file_config = Inr \<lparr>default_model = Some s\<rparr>)
   \<and> (other_fields_valid sources file_config \<and> map_of file_config ''default_model'' = Some YNull \<longrightarrow>
        Settings_init sources file_config = Inr \<lparr>default_model = None\<rparr>)
   \<and> (other_fields_valid sources file_config \<and> map_of file_config ''default_model'' = None
        \<and> environ sources ''default_model'' = Some v \<longrightarrow>
        Settings_init sources file_config = Inr \<lparr>default_model = Some v\<rparr>)
   \<and> (other_fields_valid sources file_config \<and> map_of file_config ''default_model'' = None
        \<and> environ sources ''default_model'' = None \<and> dotenv sources ''default_model'' = Some v \<longrightarrow>
        Settings_init sources file_config = Inr \<lparr>default_model = Some v\<rparr>)
   \<and> (other_fields_valid sources file_config \<and> map_of file_config ''default_model'' = None
        \<and> environ sources ''default_model'' = None \<and> dotenv sources ''default_model'' = None \<longrightarrow>
        Settings_init sources file_config = Inr \<lparr>default_model = Some ''haiku''\<rparr>)"
  by (simp add: get_model_factory_def context_of_def Settings_init_def Let_def)

theorem model_precedence_witness:
  "Settings_init no_env [(''default_model'', YStr ''sonnet'')] = Inr \<lparr>default_model = Some ''sonnet''\<rparr>
   \<and> resolved_model (running_decorator None \<lparr>default_model = Some ''sonnet''\<rparr> []) (Some ''gpt-4o'')
       = Inr (Some ''gpt-4o'')
   \<and> resolved_model (running_decorator None \<lparr>default_model = Some ''sonnet''\<rparr> []) None
       = Inr (Some ''sonnet'')
   \<and> Settings_init no_env [] = Inr \<lparr>default_model = Some ''haiku''\<rparr>
   \<and> Settings_init no_env [(''default_model'', YNull)] = Inr \<lparr>default_model = None\<rparr>
   \<and> Settings_init (no_env\<lparr>environ := [''default_model'' \<mapsto> ''gpt-4o'']\<rparr>) []
       = Inr \<lparr>default_model = Some ''gpt-4o''\<rparr>
   \<and> Settings_init (no_env\<lparr>dotenv := [''default_model'' \<mapsto> ''o3-mini'']\<rparr>) []
       = Inr \<lparr>default_model = Some ''o3-mini''\<rparr>"
proof -
  let ?self = "running_decorator None \<lparr>default_model = Some ''sonnet''\<rparr> []"
  let ?c = "\<lparr>config = \<lparr>default_model = Some ''sonnet''\<rparr>, task_registry = []\<rparr>"
  let ?cf = "\<lambda>model_spec request_params. Inr model_spec :: exn + string option"
  have c: "app_context (app ?self) = Some ?c" by (simp add: running_decorator_def)
  have a: "args_model ?self = None" by (simp add: running_decorator_def)
  from model_precedence [of ?self ?c ?cf "Some ''gpt-4o''" None no_env
      "[(''default_model'', YStr ''sonnet'')]" "''sonnet''" "''x''"] c a
  have 1: "resolved_model ?self (Some ''gpt-4o'') = Inr (Some ''gpt-4o'')"
    and 2: "Settings_init no_env [(''default_model'', YStr ''sonnet'')] = Inr \<lparr>default_model = Some ''sonnet''\<rparr>"
    by (simp_all add: resolved_model_def truthy_def no_env_def)
  from model_precedence [of ?self ?c ?cf None None no_env "[]" "''sonnet''" "''x''"] c a
  have 3: "resolved_model ?self None = Inr (Some ''sonnet'')"
    and 4: "Settings_init no_env [] = Inr \<lparr>default_model = Some ''haiku''\<rparr>"
    by (simp_all add: resolved_model_def truthy_def no_env_def)
  from model_precedence [of ?self ?c ?cf None None no_env "[(''default_model'', YNull)]"
      "''sonnet''" "''x''"]
  have 5: "Settings_init no_env [(''default_model'', YNull)] = Inr \<lparr>default_model = None\<rparr>"
    by (simp add: no_env_def)
  from model_precedence [of ?self ?c ?cf None None
      "no_env\<lparr>environ := [''default_model'' \<mapsto> ''gpt-4o'']\<rparr>" "[]" "''sonnet''" "''gpt-4o''"]
  have 6: "Settings_init (no_env\<lparr>environ := [''default_model'' \<mapsto> ''gpt-4o'']\<rparr>) []
       = Inr \<lparr>default_model = Some ''gpt-4o''\<rparr>"
    by (simp add: no_env_def)
  from model_precedence [of ?self ?c ?cf None None
      "no_env\<lparr>dotenv := [''default_model'' \<mapsto> ''o3-mini'']\<rparr>" "[]" "''sonnet''" "''o3-mini''"]
  have 7: "Settings_init (no_env\<lparr>dotenv := [''default_model'' \<mapsto> ''o3-mini'']\<rparr>) []
       = Inr \<lparr>default_model = Some ''o3-mini''\<rparr>"
    by (simp add: no_env_def)
  from 1 2 3 4 5 6 7 show ?thesis by simp
qed

section \<open>What a resolution depends on\<close>

text \<open>
  Two calls of \<^verbatim>\<open>get_settings\<close> with the same path on the same files give different
  settings: the second is made after a call for another path, and gets what that call left
  in the module-level variable.
\<close>

theorem resolution_counterexample:
  "fst (get_settings no_env two_configs [] None (Some [''b.yaml'']))
     \<noteq> fst (get_settings no_env two_configs []
              (snd (get_settings no_env two_configs [] None (Some [''a.yaml''])))
              (Some [''b.yaml'']))"
  by (simp add: get_settings_def two_configs_def Settings_init_def no_env_def)

text \<open>
  Claim C4, as amended. The model factory obtained for a node is determined by the call-site
  arguments, the command-line override and the default model of the settings in the
  context: two decorator objects that agree on these give the same result, whatever their
  registries hold, and the function changes no state. The settings are loaded by
  \<^verbatim>\<open>get_settings\<close> through a process-wide cache: once the cache is filled every call
  returns its content whatever path it is given, and a call that loads settings fills it.
\<close>

theorem resolution_depends_on_tiers:
  "(args_model s1 = args_model s2
      \<and> map_option (\<lambda>c. default_model (config c)) (app_context (app s1)) =
        map_option (\<lambda>c. default_model (config c)) (app_context (app s2))
      \<longrightarrow> get_model_factory create_factory s1 model request_params =
          get_model_factory create_factory s2 model request_params)
   \<and> get_settings sources fs cwd (Some s) config_path = (Inr s, Some s)
   \<and> (get_settings sources fs cwd None config_path = (Inr s', g) \<longrightarrow> g = Some s')"
proof (intro conjI impI)
  assume "args_model s1 = args_model s2
      \<and> map_option (\<lambda>c. default_model (config c)) (app_context (app s1)) =
        map_option (\<lambda>c. default_model (config c)) (app_context (app s2))"
  then show "get_model_factory create_factory s1 model request_params =
          get_model_factory create_factory s2 model request_params"
    by (cases "app_context (app s1)"; cases "app_context (app s2)")
       (simp_all add: get_model_factory_def context_of_def)
next
  show "get_settings sources fs cwd (Some s) config_path = (Inr s, Some s)"
    by (simp add: get_settings_def)
next
  assume "get_settings sources fs cwd None config_path = (Inr s', g)"
  then show "g = Some s'"
    by (auto simp: get_settings_def Let_def split: sum.splits)
qed

theorem resolution_depends_on_tiers_witness:
  "resolved_model (running_decorator None \<lparr>default_model = Some ''sonnet''\<rparr> cyclic_registry) (Some ''gpt-4o'')
     = resolved_model (running_decorator None \<lparr>default_model = Some ''sonnet''\<rparr> layered_registry) (Some ''gpt-4o'')
   \<and> get_settings no_env two_configs [] None (Some [''a.yaml''])
       = (Inr \<lparr>default_model = Some ''sonnet''\<rparr>, Some \<lparr>default_model = Some ''sonnet''\<rparr>)
   \<and> get_settings no_env two_configs [] (Some \<lparr>default_model = Some ''gpt-4o''\<rparr>) (Some [''a.yaml''])
       = (Inr \<lparr>default_model = Some ''gpt-4o''\<rparr>, Some \<lparr>default_model = Some ''gpt-4o''\<rparr>)"
proof -
  let ?s1 = "running_decorator None \<lparr>default_model = Some ''sonnet''\<rparr> cyclic_registry"
  let ?s2 = "running_decorator None \<lparr>default_model = Some ''sonnet''\<rparr> layered_registry"
  let ?s = "\<lparr>default_model = Some ''sonnet''\<rparr>"
  let ?g = "\<lparr>default_model = Some ''gpt-4o''\<rparr>"
  have e: "fst (get_settings no_env two_configs [] None (Some [''a.yaml''])) = Inr ?s"
    by (simp add: get_settings_def two_configs_def Settings_init_def no_env_def)
  obtain g where g: "get_settings no_env two_configs [] None (Some [''a.yaml'']) = (Inr ?s, g)"
    using e by (cases "get_settings no_env two_configs [] None (Some [''a.yaml''])") simp
  from resolution_depends_on_tiers [of ?s1 ?s2 "\<lambda>model_spec request_params. Inr model_spec"
      "Some ''gpt-4o''" None no_env two_configs "[]" ?g "Some [''a.yaml'']" ?s g] g
  have "resolved_model ?s1 (Some ''gpt-4o'') = resolved_model ?s2 (Some ''gpt-4o'')"
    and "get_settings no_env two_configs [] (Some ?g) (Some [''a.yaml'']) = (Inr ?g, Some ?g)"
    and "g = Some ?s"
    by (simp_all add: resolved_model_def running_decorator_def)
  with g show ?thesis by simp
qed

section \<open>The dependency order: what a traversal returns and when it fails\<close>

lemma dependency_order_append:
  "dependency_order ags V (xs @ ys) =
     (dependency_order ags V xs \<and> dependency_order ags (V \<union> set xs) ys)"
  by (induction xs arbitrary: V) auto

lemma gpd_unfold_parallel:
  assumes "nm \<notin> path" "nm \<notin> visited" "map_of ags nm = Some (ParallelData cfg fan_out fan_in)"
  shows "get_parallel_dependencies iter ags nm visited path =
     (case fan_out_loop iter ags fan_out visited (insert nm path) [] of
        Inl e \<Rightarrow> Inl e
      | Inr (deps, visited', path') \<Rightarrow> Inr (deps @ [nm], insert nm visited', path' - {nm}))"
  using assms by (simp add: get_parallel_dependencies.simps)

lemma gpd_not_parallel:
  assumes "nm \<notin> path" "\<not> is_parallel ags nm"
  shows "get_parallel_dependencies iter ags nm visited path = Inr ([], visited, path)"
  using assms
  by (auto simp: get_parallel_dependencies.simps is_parallel_def split: option.splits agent_data.splits)

lemma gpd_visited:
  assumes "nm \<notin> path" "nm \<in> visited"
  shows "get_parallel_dependencies iter ags nm visited path = Inr ([], visited, path)"
  using assms by (simp add: get_parallel_dependencies.simps)

lemma gpd_in_path:
  assumes "nm \<in> path"
  shows "get_parallel_dependencies iter ags nm visited path =
           Inl (ValueError (circular_message iter path nm))"
  using assms by (simp add: get_parallel_dependencies.simps)

lemma is_parallelE:
  assumes "is_parallel ags nm"
  obtains cfg fan_out fan_in where "map_of ags nm = Some (ParallelData cfg fan_out fan_in)"
    and "fan_out_of ags nm = fan_out"
  using assms by (auto simp: is_parallel_def fan_out_of_def split: option.splits agent_data.splits)

lemma success_props:
  "get_parallel_dependencies iter ags nm visited path = Inr (deps, v', p') \<Longrightarrow>
     returned_ok ags visited path deps v' p' \<and> (is_parallel ags nm \<longrightarrow> nm \<in> v')"
  "fan_out_loop iter ags fs visited path acc = Inr (deps, v', p') \<Longrightarrow>
     (\<exists>d. deps = acc @ d \<and> returned_ok ags visited path d v' p'
        \<and> (\<forall>f \<in> set fs. is_parallel ags f \<longrightarrow> f \<in> v'))"
proof (induction iter ags nm visited path and iter ags fs visited path acc
       arbitrary: deps v' p' and deps v' p'
       rule: get_parallel_dependencies_fan_out_loop.induct)
  case (1 iter ags nm visited path)
  have np: "nm \<notin> path"
  proof
    assume "nm \<in> path"
    from gpd_in_path [OF this, of iter ags visited] "1.prems" show False by simp
  qed
  show ?case
  proof (cases "nm \<in> visited")
    case True
    from gpd_visited [OF np True, of iter ags] "1.prems"
    have "deps = []" "v' = visited" "p' = path" by simp_all
    with True show ?thesis by (simp add: returned_ok_def)
  next
    case nv: False
    show ?thesis
    proof (cases "is_parallel ags nm")
      case False
      from gpd_not_parallel [OF np False, of iter visited] "1.prems"
      have "deps = []" "v' = visited" "p' = path" by simp_all
      with False show ?thesis by (simp add: returned_ok_def)
    next
      case True
      then obtain cfg fan_out fan_in where
        m: "map_of ags nm = Some (ParallelData cfg fan_out fan_in)"
        and fo: "fan_out_of ags nm = fan_out"
        by (rule is_parallelE)
      from "1.prems" gpd_unfold_parallel [OF np nv m, of iter] obtain ds vs ps where
        r: "fan_out_loop iter ags fan_out visited (insert nm path) [] = Inr (ds, vs, ps)"
        and res: "deps = ds @ [nm]" "v' = insert nm vs" "p' = ps - {nm}"
        by (cases "fan_out_loop iter ags fan_out visited (insert nm path) []") auto
      from "1.IH" [OF np nv m refl r] have
        ok: "returned_ok ags visited (insert nm path) ds vs ps"
        and ch: "\<forall>f \<in> set fan_out. is_parallel ags f \<longrightarrow> f \<in> vs"
        by simp_all
      from ok have ps: "ps = insert nm path" and vs: "vs = visited \<union> set ds"
        and dd: "distinct ds" and dv: "set ds \<inter> visited = {}"
        and dp: "set ds \<inter> insert nm path = {}" and dor: "dependency_order ags visited ds"
        and par: "\<forall>x \<in> set ds. is_parallel ags x"
        by (simp_all add: returned_ok_def)
      have 1: "ps - {nm} = path" using ps np by auto
      have 2: "insert nm vs = visited \<union> set (ds @ [nm])" using vs by auto
      have 3: "distinct (ds @ [nm])" using dd dp by auto
      have 4: "set (ds @ [nm]) \<inter> visited = {}" using dv nv by auto
      have 5: "set (ds @ [nm]) \<inter> path = {}" using dp np by auto
      have 6: "dependency_order ags visited (ds @ [nm])"
        using dor ch fo vs by (simp add: dependency_order_append)
      have 7: "\<forall>x \<in> set (ds @ [nm]). is_parallel ags x" using par True by auto
      from 1 2 3 4 5 6 7 have "returned_ok ags visited path (ds @ [nm]) (insert nm vs) (ps - {nm})"
        unfolding returned_ok_def by blast
      with res show ?thesis by simp
    qed
  qed
next
  case (2 iter ags visited path deps)
  then show ?case by (simp add: returned_ok_def)
next
  case (3 iter ags f fs visited path acc)
  from "3.prems" obtain d1 v1 p1 where
    r: "get_parallel_dependencies iter ags f visited path = Inr (d1, v1, p1)"
    and l: "fan_out_loop iter ags fs v1 p1 (acc @ d1) = Inr (deps, v', p')"
    by (cases "get_parallel_dependencies iter ags f visited path") auto
  from "3.IH"(1) [OF r] have ok1: "returned_ok ags visited path d1 v1 p1"
    and f1: "is_parallel ags f \<longrightarrow> f \<in> v1" by simp_all
  from "3.IH"(2) [OF r refl refl l] obtain d2 where
    d2: "deps = (acc @ d1) @ d2" and ok2: "returned_ok ags v1 p1 d2 v' p'"
    and f2: "\<forall>f \<in> set fs. is_parallel ags f \<longrightarrow> f \<in> v'" by blast
  from ok1 have a: "p1 = path" "v1 = visited \<union> set d1" "distinct d1" "set d1 \<inter> visited = {}"
      "set d1 \<inter> path = {}" "dependency_order ags visited d1" "\<forall>x \<in> set d1. is_parallel ags x"
    by (simp_all add: returned_ok_def)
  from ok2 have b: "p' = p1" "v' = v1 \<union> set d2" "distinct d2" "set d2 \<inter> v1 = {}"
      "set d2 \<inter> p1 = {}" "dependency_order ags v1 d2" "\<forall>x \<in> set d2. is_parallel ags x"
    by (simp_all add: returned_ok_def)
  have 1: "p' = path" using a b by simp
  have 2: "v' = visited \<union> set (d1 @ d2)" using a b by auto
  have 3: "distinct (d1 @ d2)" using a b by auto
  have 4: "set (d1 @ d2) \<inter> visited = {}" using a b by auto
  have 5: "set (d1 @ d2) \<inter> path = {}" using a b by auto
  have 6: "dependency_order ags visited (d1 @ d2)"
    using a(2,6) b(6) by (simp add: dependency_order_append)
  have 7: "\<forall>x \<in> set (d1 @ d2). is_parallel ags x" using a b by auto
  from 1 2 3 4 5 6 7 have "returned_ok ags visited path (d1 @ d2) v' p'"
    unfolding returned_ok_def by blast
  moreover have "\<forall>g \<in> set (f # fs). is_parallel ags g \<longrightarrow> g \<in> v'"
    using f1 f2 b(2) by auto
  ultimately show ?case using d2 by auto
qed

lemma chain_snoc:
  "successively R (st @ [a]) \<Longrightarrow> R a b \<Longrightarrow> successively R ((st @ [a]) @ [b])"
  by (simp add: successively_append_iff)

lemma failure_props:
  "get_parallel_dependencies iter ags nm visited path = Inl e \<Longrightarrow>
     path = set st \<Longrightarrow> successively (follows ags) (st @ [nm]) \<Longrightarrow>
     (\<exists>st2 n. e = ValueError (circular_message iter (set (st @ st2)) n)
        \<and> n \<in> set (st @ st2) \<and> successively (follows ags) ((st @ st2) @ [n]))"
  "fan_out_loop iter ags fs visited path acc = Inl e \<Longrightarrow>
     path = set st \<Longrightarrow> (\<forall>f \<in> set fs. successively (follows ags) (st @ [f])) \<Longrightarrow>
     (\<exists>st2 n. e = ValueError (circular_message iter (set (st @ st2)) n)
        \<and> n \<in> set (st @ st2) \<and> successively (follows ags) ((st @ st2) @ [n]))"
proof (induction iter ags nm visited path and iter ags fs visited path acc
       arbitrary: e st and e st
       rule: get_parallel_dependencies_fan_out_loop.induct)
  case (1 iter ags nm visited path)
  show ?case
  proof (cases "nm \<in> path")
    case True
    from gpd_in_path [OF True, of iter ags visited] "1.prems"(1)
    have "e = ValueError (circular_message iter (set (st @ [])) nm)"
      using "1.prems"(2) by simp
    moreover have "nm \<in> set (st @ [])" using True "1.prems"(2) by simp
    moreover have "successively (follows ags) ((st @ []) @ [nm])" using "1.prems"(3) by simp
    ultimately show ?thesis by blast
  next
    case np: False
    have nv: "nm \<notin> visited"
    proof
      assume "nm \<in> visited"
      from gpd_visited [OF np this, of iter ags] "1.prems"(1) show False by simp
    qed
    have "is_parallel ags nm"
    proof (rule ccontr)
      assume "\<not> is_parallel ags nm"
      from gpd_not_parallel [OF np this, of iter visited] "1.prems"(1) show False by simp
    qed
    then obtain cfg fan_out fan_in where
      m: "map_of ags nm = Some (ParallelData cfg fan_out fan_in)"
      and fo: "fan_out_of ags nm = fan_out"
      by (rule is_parallelE)
    from "1.prems"(1) gpd_unfold_parallel [OF np nv m, of iter]
    have r: "fan_out_loop iter ags fan_out visited (insert nm path) [] = Inl e"
      by (cases "fan_out_loop iter ags fan_out visited (insert nm path) []") auto
    have p: "insert nm path = set (st @ [nm])" using "1.prems"(2) by simp
    have c: "\<forall>f \<in> set fan_out. successively (follows ags) ((st @ [nm]) @ [f])"
      using chain_snoc [OF "1.prems"(3)] fo by (simp add: follows_def)
    from "1.IH" [OF np nv m refl r p c] obtain st2 n where
      "e = ValueError (circular_message iter (set ((st @ [nm]) @ st2)) n)"
      "n \<in> set ((st @ [nm]) @ st2)" "successively (follows ags) (((st @ [nm]) @ st2) @ [n])"
      by blast
    then have "e = ValueError (circular_message iter (set (st @ (nm # st2))) n)
       \<and> n \<in> set (st @ (nm # st2)) \<and> successively (follows ags) ((st @ (nm # st2)) @ [n])"
      by simp
    then show ?thesis by blast
  qed
next
  case (2 iter ags visited path deps)
  then show ?case by simp
next
  case (3 iter ags f fs visited path acc)
  show ?case
  proof (cases "get_parallel_dependencies iter ags f visited path")
    case (Inl e1)
    with "3.prems"(1) have "e1 = e" by simp
    with Inl "3.IH"(1) [OF _ "3.prems"(2)] "3.prems"(3) show ?thesis by simp
  next
    case (Inr r)
    obtain d1 v1 p1 where r: "r = (d1, v1, p1)" by (cases r)
    from success_props(1) [of iter ags f visited path d1 v1 p1] Inr r
    have "p1 = path" by (simp add: returned_ok_def)
    with "3.prems"(2) have p: "p1 = set st" by simp
    from Inr r "3.prems"(1) have l: "fan_out_loop iter ags fs v1 p1 (acc @ d1) = Inl e" by simp
    from Inr r have g: "get_parallel_dependencies iter ags f visited path = Inr (d1, v1, p1)"
      by simp
    from "3.IH"(2) [OF g refl refl l p] "3.prems"(3) show ?thesis by simp
  qed
qed

lemma successively_trancl:
  "successively (follows ags) (a # xs @ [b]) \<Longrightarrow> (a, b) \<in> (edges ags)\<^sup>+"
proof (induction xs arbitrary: a)
  case Nil
  then show ?case by (auto simp: edges_def follows_def)
next
  case (Cons x xs)
  then have "(a, x) \<in> edges ags" and "successively (follows ags) (x # xs @ [b])"
    by (auto simp: edges_def follows_def)
  with Cons.IH show ?case by (meson trancl_into_trancl2)
qed

text \<open>From the names on the path at the point of failure, the cycle that was closed.\<close>

lemma cycle_of_failure:
  assumes "n \<in> set st" "successively (follows ags) (st @ [n])"
  shows "\<exists>cyc. cyc \<noteq> [] \<and> hd cyc = n \<and> set cyc \<subseteq> set st
           \<and> successively (follows ags) (cyc @ [n])"
proof -
  from assms(1) obtain pre post where st: "st = pre @ n # post" by (meson split_list)
  with assms(2) have "successively (follows ags) (pre @ ((n # post) @ [n]))" by simp
  then have "successively (follows ags) ((n # post) @ [n])"
    unfolding successively_append_iff [of _ pre] by blast
  with st show ?thesis by (intro exI [of _ "n # post"]) auto
qed



lemma dependency_order_before:
  "dependency_order ags V xs \<Longrightarrow> a \<in> set xs \<Longrightarrow> b \<in> set (fan_out_of ags a) \<Longrightarrow>
     is_parallel ags b \<Longrightarrow> b \<in> V \<or> before xs b a"
proof (induction xs arbitrary: V)
  case Nil
  then show ?case by simp
next
  case (Cons x xs)
  show ?case
  proof (cases "a = x")
    case True
    with Cons.prems show ?thesis by auto
  next
    case False
    with Cons.prems have "a \<in> set xs" and "dependency_order ags (insert x V) xs" by auto
    from Cons.IH [OF this(2) this(1) Cons.prems(3,4)]
    consider "b = x" | "b \<in> V" | "before xs b a" by auto
    then show ?thesis
    proof cases
      case 1
      from \<open>a \<in> set xs\<close> obtain j where "j < length xs" "xs ! j = a"
        by (auto simp: in_set_conv_nth)
      with 1 have "before (x # xs) b a"
        unfolding before_def by (intro exI [of _ 0] exI [of _ "Suc j"]) auto
      then show ?thesis ..
    next
      case 2
      then show ?thesis ..
    next
      case 3
      then obtain i j where "i < j" "j < length xs" "xs ! i = b" "xs ! j = a"
        by (auto simp: before_def)
      then have "before (x # xs) b a"
        unfolding before_def by (intro exI [of _ "Suc i"] exI [of _ "Suc j"]) auto
      then show ?thesis ..
    qed
  qed
qed






lemma layered_order:
  "get_parallel_dependencies iter layered_registry ''top'' {} {} =
     Inr ([''low'', ''mid'', ''top''], {''top'', ''mid'', ''low''}, {})"
  by (simp add: get_parallel_dependencies.simps layered_registry_def)

lemma layered_acyclic: "acyclic (edges layered_registry)"
proof (rule acyclicI_order [where f = "\<lambda>s. if s = ''top'' then 3 else if s = ''mid'' then 2
                                          else if s = ''low'' then (1::nat) else 0"])
  fix a b assume "(a, b) \<in> edges layered_registry"
  then show "(if b = ''top'' then 3 else if b = ''mid'' then 2 else if b = ''low'' then (1::nat) else 0)
     < (if a = ''top'' then 3 else if a = ''mid'' then 2 else if a = ''low'' then (1::nat) else 0)"
    by (auto simp: edges_def fan_out_of_def layered_registry_def split: if_splits)
qed

text \<open>
  Claim C3. When no parallel agent of the registry reaches itself through fan-out
  references, the resolution started at any root with fresh sets returns a list, leaves the
  path empty, and the list is a topological order: no name occurs twice, and whenever a name
  of the list has a registered parallel agent in its fan-out, that agent stands at an
  earlier position. An edge is a fan-out reference from a parallel agent to a parallel
  agent; names in a fan-out that are no parallel agents are leaves and are not listed. A
  parallel root is itself in the list.
\<close>

theorem build_order_topological:
  assumes "acyclic (edges ags)"
  shows "\<exists>deps visited'.
           get_parallel_dependencies iter ags root {} {} = Inr (deps, visited', {})
         \<and> distinct deps
         \<and> (is_parallel ags root \<longrightarrow> root \<in> set deps)
         \<and> (\<forall>a b. a \<in> set deps \<and> b \<in> set (fan_out_of ags a) \<and> is_parallel ags b
                  \<longrightarrow> before deps b a)"
proof (cases "get_parallel_dependencies iter ags root {} {}")
  case (Inl e)
  from failure_props(1) [OF Inl, of "[]"] obtain st2 n where
    "n \<in> set st2" "successively (follows ags) (st2 @ [n])" by auto
  from cycle_of_failure [OF this] obtain cyc where
    "cyc \<noteq> []" "hd cyc = n" "successively (follows ags) (cyc @ [n])" by blast
  then have "successively (follows ags) (n # tl cyc @ [n])" by (cases cyc) auto
  then have "(n, n) \<in> (edges ags)\<^sup>+" by (rule successively_trancl)
  with assms show ?thesis by (simp add: acyclic_def)
next
  case (Inr r)
  obtain deps v' p' where r: "r = (deps, v', p')" by (cases r)
  from success_props(1) [of iter ags root "{}" "{}" deps v' p'] Inr r
  have ok: "returned_ok ags {} {} deps v' p'" and rt: "is_parallel ags root \<longrightarrow> root \<in> v'"
    by simp_all
  from ok have p: "p' = {}" and v: "v' = set deps" and d: "distinct deps"
    and ord: "dependency_order ags {} deps"
    by (simp_all add: returned_ok_def)
  have "\<forall>a b. a \<in> set deps \<and> b \<in> set (fan_out_of ags a) \<and> is_parallel ags b \<longrightarrow> before deps b a"
    using dependency_order_before [OF ord] by blast
  with Inr r p d rt v show ?thesis by simp
qed

theorem build_order_topological_witness:
  "acyclic (edges layered_registry)
   \<and> get_parallel_dependencies (\<lambda>S. []) layered_registry ''top'' {} {} =
       Inr ([''low'', ''mid'', ''top''], {''top'', ''mid'', ''low''}, {})
   \<and> before [''low'', ''mid'', ''top''] ''mid'' ''top''
   \<and> before [''low'', ''mid'', ''top''] ''low'' ''mid''"
proof -
  from build_order_topological [OF layered_acyclic, of "\<lambda>S. []" "''top''"]
  obtain deps v where
    r: "get_parallel_dependencies (\<lambda>S. []) layered_registry ''top'' {} {} = Inr (deps, v, {})"
    and b: "\<forall>a b. a \<in> set deps \<and> b \<in> set (fan_out_of layered_registry a)
              \<and> is_parallel layered_registry b \<longrightarrow> before deps b a"
    by blast
  from r have deps: "deps = [''low'', ''mid'', ''top'']" by (simp add: layered_order)
  have "''mid'' \<in> set (fan_out_of layered_registry ''top'')"
    and "is_parallel layered_registry ''mid''"
    and "''low'' \<in> set (fan_out_of layered_registry ''mid'')"
    and "is_parallel layered_registry ''low''"
    by (simp_all add: fan_out_of_def is_parallel_def layered_registry_def)
  with b deps have "before [''low'', ''mid'', ''top''] ''mid'' ''top''"
    and "before [''low'', ''mid'', ''top''] ''low'' ''mid''"
    by simp_all
  with layered_acyclic layered_order show ?thesis by simp
qed

















lemma outcome_iter:
  "outcome (get_parallel_dependencies iter ags nm visited path) =
     outcome (get_parallel_dependencies iter2 ags nm visited path)"
  "outcome (fan_out_loop iter ags fs visited path acc) =
     outcome (fan_out_loop iter2 ags fs visited path acc)"
proof (induction iter ags nm visited path and iter ags fs visited path acc
       rule: get_parallel_dependencies_fan_out_loop.induct)
  case (1 iter ags nm visited path)
  show ?case
  proof (cases "nm \<in> path")
    case True
    then show ?thesis by (simp add: gpd_in_path outcome_def)
  next
    case np: False
    show ?thesis
    proof (cases "nm \<in> visited")
      case True
      with np show ?thesis by (simp add: gpd_visited)
    next
      case nv: False
      show ?thesis
      proof (cases "is_parallel ags nm")
        case False
        with np show ?thesis by (simp add: gpd_not_parallel)
      next
        case True
        then obtain cfg fan_out fan_in where
          m: "map_of ags nm = Some (ParallelData cfg fan_out fan_in)"
          by (rule is_parallelE)
        from "1.IH" [OF np nv m refl]
        have "outcome (fan_out_loop iter ags fan_out visited (insert nm path) []) =
              outcome (fan_out_loop iter2 ags fan_out visited (insert nm path) [])" .
        then show ?thesis
          unfolding gpd_unfold_parallel [OF np nv m]
          by (auto simp: outcome_def split: sum.splits)
      qed
    qed
  qed
next
  case (2 iter ags visited path deps)
  show ?case by simp
next
  case (3 iter ags f fs visited path acc)
  show ?case
  proof (cases "get_parallel_dependencies iter ags f visited path")
    case (Inl e)
    with "3.IH"(1) obtain e2 where "get_parallel_dependencies iter2 ags f visited path = Inl e2"
      by (cases "get_parallel_dependencies iter2 ags f visited path") (auto simp: outcome_def)
    with Inl show ?thesis by (simp add: outcome_def)
  next
    case (Inr r)
    obtain d1 v1 p1 where r: "r = (d1, v1, p1)" by (cases r)
    from Inr "3.IH"(1) have 2: "get_parallel_dependencies iter2 ags f visited path = Inr r"
      by (cases "get_parallel_dependencies iter2 ags f visited path") (auto simp: outcome_def)
    from Inr r have g: "get_parallel_dependencies iter ags f visited path = Inr (d1, v1, p1)"
      by simp
    from "3.IH"(2) [OF g refl refl] Inr 2 r show ?thesis by simp
  qed
qed

lemma outcome_create_parallel_loop:
  "outcome (create_parallel_loop iter cf self active_agents names visited parallel_agents) =
     outcome (create_parallel_loop iter2 cf self active_agents names visited parallel_agents)"
proof (induction names arbitrary: visited parallel_agents)
  case Nil
  show ?case by simp
next
  case (Cons nm names)
  show ?case
  proof (cases "nm \<in> visited")
    case True
    with Cons.IH show ?thesis by simp
  next
    case False
    show ?thesis
    proof (cases "get_parallel_dependencies iter (agents self) nm visited {}")
      case (Inl e)
      with outcome_iter(1) [of iter "agents self" nm visited "{}" iter2]
      obtain e2 where 2: "get_parallel_dependencies iter2 (agents self) nm visited {} = Inl e2"
        by (cases "get_parallel_dependencies iter2 (agents self) nm visited {}")
           (auto simp: outcome_def)
      from False Inl 2 show ?thesis by (simp add: outcome_def split: exn.splits)
    next
      case (Inr r)
      with outcome_iter(1) [of iter "agents self" nm visited "{}" iter2]
      have 2: "get_parallel_dependencies iter2 (agents self) nm visited {} = Inr r"
        by (cases "get_parallel_dependencies iter2 (agents self) nm visited {}")
           (auto simp: outcome_def)
      obtain d1 v1 p1 where r: "r = (d1, v1, p1)" by (cases r)
      show ?thesis
      proof (cases "create_ordered cf self active_agents d1 parallel_agents")
        case (Inl e)
        with False Inr 2 r show ?thesis by (simp add: outcome_def)
      next
        case (Inr pa)
        with False \<open>get_parallel_dependencies iter (agents self) nm visited {} = Inr r\<close> 2 r
          Cons.IH [of v1 pa]
        show ?thesis by simp
      qed
    qed
  qed
qed

text \<open>
  Claim C8. The order in which Python iterates over a set, which the hashes of the names
  decide, has no part in the result of the resolution: two invocations from fresh sets on
  the same registry and root return the same list and the same sets, or fail both, whatever
  the iteration order of each; only the text of the error message is made from it. The
  same holds for the whole construction of the parallel agents, which takes the roots in
  the order of the registry. The registry itself is only read.
\<close>

theorem order_deterministic:
  "outcome (get_parallel_dependencies iter1 ags root {} {}) =
     outcome (get_parallel_dependencies iter2 ags root {} {})
   \<and> outcome (create_parallel_agents iter1 cf self active_agents) =
     outcome (create_parallel_agents iter2 cf self active_agents)"
  using outcome_iter(1) [of iter1 ags root "{}" "{}" iter2]
    outcome_create_parallel_loop [of iter1 cf self active_agents _ "{}" "[]" iter2]
  by (simp add: create_parallel_agents_def)

section \<open>Missing references of composite agents\<close>

text \<open>
  Claim C5, on two registries with a reference to a name that was never built. The
  orchestrator is built from a list comprehension over \<^verbatim>\<open>active_agents[agent_name]\<close>, and
  the missing child comes out as the \<^verbatim>\<open>KeyError\<close> of the dictionary. The evaluator-optimizer
  reads its two references with \<^verbatim>\<open>get\<close>, tests them and raises a \<^verbatim>\<open>ValueError\<close> that names
  the workflow and both references.
\<close>

theorem missing_reference_errors:
  "create_orchestrators (\<lambda>model. Inr ''sonnet'') (\<lambda>model_spec request_params. Inr model_spec)
     (running_decorator None \<lparr>default_model = Some ''haiku''\<rparr>
        [(''o'', OrchestratorData (example_config ''o'') [''missing''])])
     []
     = Inl (KeyError ''missing'')
   \<and> create_evaluator_optimizers (\<lambda>model_spec request_params. Inr model_spec)
       (running_decorator None \<lparr>default_model = Some ''haiku''\<rparr>
          [(''w'', EvaluatorOptimizerData (example_config ''w'') ''missing'' ''e'' ''GOOD'' 3)])
       [(''e'', AgentRT (example_config ''e''))]
     = Inl (ValueError ''Missing agents for workflow w: optimizer=missing, evaluator=e'')"
  by (simp add: create_orchestrators_def create_orchestrator_def create_evaluator_optimizers_def
      create_evaluator_optimizer_def running_decorator_def get_model_factory_def context_of_def
      example_config_def truthy_def)

section \<open>The run scope\<close>

text \<open>
  A \<^verbatim>\<open>cleanup_context\<close> that raises an exception other than the cancellation: the run scope
  ends with this exception in place of the one the body raised, and the application is left
  initialized, with its old context.
\<close>

theorem teardown_counterexample:
  "fst (run (\<lambda>w. (Inr example_context, w))
          (\<lambda>w. (Some (RuntimeError ''teardown failed''), Suc w))
          (\<lambda>a w. (Inl (ValueError ''body failed'') :: exn + unit, a, w))
          fresh_app 0)
     = Inl (RuntimeError ''teardown failed'')
   \<and> app_initialized (fst (snd (run (\<lambda>w. (Inr example_context, w))
          (\<lambda>w. (Some (RuntimeError ''teardown failed''), Suc w))
          (\<lambda>a w. (Inl (ValueError ''body failed'') :: exn + unit, a, w))
          fresh_app 0)))"
  by (simp add: run_def initialize_def cleanup_def fresh_app_def)

text \<open>
  Claim C6, as amended. Take a run scope whose initialization succeeded and look at its
  exit, whether the body returned or raised. When the body has left the application
  initialized, the exit calls \<^verbatim>\<open>cleanup_context\<close> exactly once, in the state the body left,
  whatever that call does. When that call returns or is cancelled, the scope ends with the
  outcome of the body, the cancellation being logged and not raised again; the context is
  dropped and the flag cleared, the table of workflows is kept, and initializing again
  takes the context that a new call of \<^verbatim>\<open>initialize_context\<close> gives. Any other exception of
  that call ends the scope in place of the outcome of the body and leaves the application
  initialized with its context. When the body has left the application uninitialized, as
  after a call of \<^verbatim>\<open>cleanup\<close> or a nested scope on the same application, the exit does not
  call \<^verbatim>\<open>cleanup_context\<close>. The scope of the decorator object is such a scope, its body
  being the creation of the agents, the body proper and the closing of the basic agents.
\<close>

theorem teardown_once:
  assumes "initialize initialize_context a0 w0 = (None, a1, w1)"
    and "body a1 w1 = (r, a2, w2)"
    and "cleanup_context w2 = (x, w3)"
  shows "(app_initialized a2 \<longrightarrow>
           (\<exists>a3. run initialize_context cleanup_context body a0 w0 =
                   ((case x of None \<Rightarrow> r | Some e \<Rightarrow> if e = CancelledError then r else Inl e), a3, w3)
              \<and> app_workflows a3 = app_workflows a2
              \<and> (x = None \<or> x = Some CancelledError \<longrightarrow>
                   app_context a3 = None \<and> \<not> app_initialized a3
                   \<and> (\<forall>c' w4. initialize_context w3 = (Inr c', w4) \<longrightarrow>
                        (\<exists>a4. initialize initialize_context a3 w3 = (None, a4, w4)
                           \<and> app_context a4 = Some c')))
              \<and> (x = Some CancelledError \<longrightarrow>
                   last (app_log a3) = ''Cleanup cancelled error during shutdown'')
              \<and> (x \<noteq> None \<and> x \<noteq> Some CancelledError \<longrightarrow>
                   app_initialized a3 \<and> app_context a3 = app_context a2)))
       \<and> (\<not> app_initialized a2 \<longrightarrow>
           run initialize_context cleanup_context body a0 w0 = (r, a2, w2))
       \<and> decorator_run initialize_context cleanup_context create_agents aexit user_body self w
           = run initialize_context cleanup_context
               (decorator_body create_agents aexit user_body self) (app self) w"
proof (intro conjI impI)
  assume i: "app_initialized a2"
  show "\<exists>a3. run initialize_context cleanup_context body a0 w0 =
                   ((case x of None \<Rightarrow> r | Some e \<Rightarrow> if e = CancelledError then r else Inl e), a3, w3)
              \<and> app_workflows a3 = app_workflows a2
              \<and> (x = None \<or> x = Some CancelledError \<longrightarrow>
                   app_context a3 = None \<and> \<not> app_initialized a3
                   \<and> (\<forall>c' w4. initialize_context w3 = (Inr c', w4) \<longrightarrow>
                        (\<exists>a4. initialize initialize_context a3 w3 = (None, a4, w4)
                           \<and> app_context a4 = Some c')))
              \<and> (x = Some CancelledError \<longrightarrow>
                   last (app_log a3) = ''Cleanup cancelled error during shutdown'')
              \<and> (x \<noteq> None \<and> x \<noteq> Some CancelledError \<longrightarrow>
                   app_initialized a3 \<and> app_context a3 = app_context a2)"
  proof (cases x)
    case None
    with i assms(3) have "cleanup cleanup_context a2 w2 =
        (None, a2\<lparr>app_log := app_log a2 @ [''MCPAgent cleanup''],
                  app_context := None, app_initialized := False\<rparr>, w3)"
      by (simp add: cleanup_def)
    with assms(1,2) None show ?thesis
      by (auto simp: run_def initialize_def)
  next
    case (Some e)
    show ?thesis
    proof (cases "e = CancelledError")
      case True
      with Some i assms(3) have "cleanup cleanup_context a2 w2 =
          (None, a2\<lparr>app_log := (app_log a2 @ [''MCPAgent cleanup''])
                        @ [''Cleanup cancelled error during shutdown''],
                    app_context := None, app_initialized := False\<rparr>, w3)"
        by (simp add: cleanup_def)
      with assms(1,2) Some True show ?thesis
        by (auto simp: run_def initialize_def)
    next
      case False
      with Some i assms(3) have "cleanup cleanup_context a2 w2 =
          (Some e, a2\<lparr>app_log := app_log a2 @ [''MCPAgent cleanup'']\<rparr>, w3)"
        by (cases e) (simp_all add: cleanup_def)
      with assms(1,2) Some False i show ?thesis
        by (auto simp: run_def)
    qed
  qed
next
  assume "\<not> app_initialized a2"
  then have "cleanup cleanup_context a2 w2 = (None, a2, w2)" by (simp add: cleanup_def)
  with assms(1,2) show "run initialize_context cleanup_context body a0 w0 = (r, a2, w2)"
    by (simp add: run_def)
next
  show "decorator_run initialize_context cleanup_context create_agents aexit user_body self w
           = run initialize_context cleanup_context
               (decorator_body create_agents aexit user_body self) (app self) w"
    by (simp add: decorator_run_def)
qed

text \<open>
  Three scopes on a fresh application, the state outside it counting the calls of
  \<^verbatim>\<open>cleanup_context\<close>: a body that raises with a teardown that is cancelled, a body that
  returns, and the scope of a decorator object whose one basic agent fails to close.
\<close>

theorem teardown_once_witness:
  "run (\<lambda>w. (Inr example_context, w)) (\<lambda>w. (Some CancelledError, Suc w))
       (\<lambda>a w. (Inl (ValueError ''body failed'') :: exn + unit, a, w)) fresh_app 0
     = (Inl (ValueError ''body failed''),
        fresh_app\<lparr>app_log := [''MCPAgent initialized'', ''MCPAgent cleanup'',
                               ''Cleanup cancelled error during shutdown'']\<rparr>,
        1)
   \<and> run (\<lambda>w. (Inr example_context, w)) (\<lambda>w. (None, Suc w))
       (\<lambda>a w. (Inr (), a, w)) fresh_app 0
     = (Inr (), fresh_app\<lparr>app_log := [''MCPAgent initialized'', ''MCPAgent cleanup'']\<rparr>, 1)
   \<and> run (\<lambda>w. (Inr example_context, w)) (\<lambda>w. (None, Suc w))
       (\<lambda>a w. run (\<lambda>w. (Inr example_context, w)) (\<lambda>w. (None, Suc w)) (\<lambda>a w. (Inr (), a, w)) a w)
       fresh_app 0
     = (Inr (),
        fresh_app\<lparr>app_log := [''MCPAgent initialized'', ''MCPAgent cleanup'']\<rparr>, 1)
   \<and> decorator_run (\<lambda>w. (Inr example_context, w)) (\<lambda>w. (None, Suc w))
       (\<lambda>self w. (Inr [(''a'', AgentRT (example_config ''a'') :: nat runtime)], w))
       (\<lambda>cfg w. (Some (RuntimeError ''close failed''), w))
       (\<lambda>active a w. (Inr (), a, w))
       (running_decorator None \<lparr>default_model = None\<rparr> []\<lparr>app := fresh_app\<rparr>) 0
     = (Inl (RuntimeError ''close failed''),
        fresh_app\<lparr>app_log := [''MCPAgent initialized'', ''MCPAgent cleanup'']\<rparr>, 1)"
proof -
  let ?ic = "\<lambda>w::nat. (Inr example_context :: exn + Context, w)"
  let ?a1 = "fresh_app\<lparr>app_context := Some example_context, app_initialized := True,
                  app_log := app_log fresh_app @ [''MCPAgent initialized'']\<rparr>"
  let ?done = "fresh_app\<lparr>app_log := [''MCPAgent initialized'', ''MCPAgent cleanup'']\<rparr>"
  let ?self = "running_decorator None \<lparr>default_model = None\<rparr> []\<lparr>app := fresh_app\<rparr>"
  let ?create = "\<lambda>(self::MCPAgentDecorator) (w::nat).
      (Inr [(''a'', AgentRT (example_config ''a'') :: nat runtime)] :: exn + (string \<times> nat runtime) list, w)"
  let ?aexit = "\<lambda>(cfg::AgentConfig) (w::nat). (Some (RuntimeError ''close failed''), w)"
  let ?ub = "\<lambda>(active::(string \<times> nat runtime) list) (a::MCPApp) (w::nat). (Inr () :: exn + unit, a, w)"
  have init: "initialize ?ic fresh_app 0 = (None, ?a1, 0)"
    by (simp add: initialize_def fresh_app_def)
  have i: "app_initialized ?a1" by (simp add: fresh_app_def)
  have d: "?a1\<lparr>app_log := app_log ?a1 @ [''MCPAgent cleanup''], app_context := None,
               app_initialized := False\<rparr> = ?done"
    by (simp add: fresh_app_def)
  from teardown_once [OF init, of "\<lambda>a w. (Inl (ValueError ''body failed'') :: exn + unit, a, w)"
      "Inl (ValueError ''body failed'')" ?a1 0 "\<lambda>w. (Some CancelledError, Suc w)"
      "Some CancelledError" 1 ?create ?aexit ?ub ?self 0] i
  obtain a3 where
    1: "run ?ic (\<lambda>w. (Some CancelledError, Suc w))
       (\<lambda>a w. (Inl (ValueError ''body failed'') :: exn + unit, a, w)) fresh_app 0
       = (Inl (ValueError ''body failed''), a3, 1)"
    by auto
  from teardown_once [OF init, of "\<lambda>a w. (Inr (), a, w)" "Inr ()" ?a1 0 "\<lambda>w. (None, Suc w)" None 1
      ?create ?aexit ?ub ?self 0] i
  obtain a3' where
    2: "run ?ic (\<lambda>w. (None, Suc w)) (\<lambda>a w. (Inr (), a, w)) fresh_app 0 = (Inr (), a3', 1)"
    by auto
  from 1 have a3: "a3 = fresh_app\<lparr>app_log := [''MCPAgent initialized'', ''MCPAgent cleanup'',
                               ''Cleanup cancelled error during shutdown'']\<rparr>"
    by (simp add: run_def initialize_def cleanup_def fresh_app_def)
  from 2 have a3': "a3' = ?done"
    by (simp add: run_def initialize_def cleanup_def fresh_app_def)
  have inner: "run ?ic (\<lambda>w. (None, Suc w)) (\<lambda>a w. (Inr (), a, w)) ?a1 0 = (Inr (), ?done, 1)"
    by (simp add: run_def initialize_def cleanup_def fresh_app_def)
  have n: "\<not> app_initialized ?done" by (simp add: fresh_app_def)
  from teardown_once [OF init, of
      "\<lambda>a w. run ?ic (\<lambda>w. (None, Suc w)) (\<lambda>a w. (Inr (), a, w)) a w" "Inr ()" ?done 1
      "\<lambda>w. (None, Suc w)" None 2 ?create ?aexit ?ub ?self 0] inner n
  have 3: "run ?ic (\<lambda>w. (None, Suc w))
       (\<lambda>a w. run ?ic (\<lambda>w. (None, Suc w)) (\<lambda>a w. (Inr (), a, w)) a w) fresh_app 0
     = (Inr (), ?done, 1)"
    by simp
  have body: "decorator_body ?create ?aexit ?ub ?self ?a1 0
      = (Inl (RuntimeError ''close failed''), ?a1, 0)"
    by (simp add: decorator_body_def)
  from teardown_once [OF init, of "decorator_body ?create ?aexit ?ub ?self"
      "Inl (RuntimeError ''close failed'')" ?a1 0 "\<lambda>w. (None, Suc w)" None 1
      ?create ?aexit ?ub ?self 0] body i
  obtain a5 where
    4: "decorator_run ?ic (\<lambda>w. (None, Suc w)) ?create ?aexit ?ub ?self 0
       = (Inl (RuntimeError ''close failed''), a5, 1)"
    by (auto simp: running_decorator_def)
  from 4 have a5: "a5 = ?done"
    by (simp add: decorator_run_def decorator_body_def run_def initialize_def cleanup_def
        fresh_app_def running_decorator_def)
  from 1 2 3 4 a3 a3' a5 show ?thesis by simp
qed

section \<open>Registration of a workflow task\<close>

lemma map_of_dict_set: "map_of (dict_set k v d) k' = (if k' = k then Some v else map_of d k')"
  by (induction d) auto

lemma map_of_fold_dict_set:
  "k \<notin> fst ` set kwargs \<Longrightarrow> map_of (fold (\<lambda>(k, v). dict_set k v) kwargs d) k = map_of d k"
proof (induction kwargs arbitrary: d)
  case Nil
  show ?case by simp
next
  case (Cons kv kwargs)
  obtain k' v' where kv: "kv = (k', v')" by (cases kv)
  with Cons.prems have "k' \<noteq> k" and "k \<notin> fst ` set kwargs" by auto
  with Cons.IH [of "dict_set k' v' d"] kv show ?case by (simp add: map_of_dict_set)
qed

text \<open>
  For a function, that is a callable with name, module and qualified name that accepts new
  attributes, \<^verbatim>\<open>workflow_task\<close> does what its documentation says: it raises a \<^verbatim>\<open>TypeError\<close>
  exactly when the function is not a coroutine function; for a coroutine function, inside
  an initialized application, it returns the reference it was given and registers it under
  the given name, or under module and qualified name when none or the empty name is given,
  with metadata whose timeout is ten minutes when none is given and the given one otherwise
  (if not zero), and whose retry policy is empty when none is given. The function object
  keeps its name, module and qualified name; two marker attributes are set on it. No other
  object, and nothing else in the context, changes.
\<close>

lemma workflow_task_on_functions:
  assumes "''schedule_to_close_timeout'' \<notin> fst ` set kwargs"
    and "''retry_policy'' \<notin> fst ` set kwargs"
    and "co_name (st func) = Some fname" and "co_module (st func) = Some m"
    and "co_qualname (st func) = Some q" and "co_settable (st func)"
  shows "((\<exists>msg. fst (workflow_task nm timeout retry_policy kwargs func ap st) = Inl (TypeError msg))
            \<longleftrightarrow> \<not> co_is_coroutine (st func))
   \<and> (co_is_coroutine (st func) \<and> app_context ap = Some c \<longrightarrow>
        (\<exists>md c' st'.
           workflow_task nm timeout retry_policy kwargs func ap st
             = (Inr func, ap\<lparr>app_context := Some c'\<rparr>, st')
         \<and> map_of (task_registry c')
              (case nm of None \<Rightarrow> m @ ''.'' @ q | Some n \<Rightarrow> if n = [] then m @ ''.'' @ q else n)
              = Some (func, md)
         \<and> (timeout = None \<longrightarrow> map_of md ''schedule_to_close_timeout'' = Some (MTimeout (minutes 10)))
         \<and> (\<forall>t. timeout = Some t \<and> t \<noteq> 0 \<longrightarrow> map_of md ''schedule_to_close_timeout'' = Some (MTimeout t))
         \<and> (retry_policy = None \<longrightarrow> map_of md ''retry_policy'' = Some (MDict []))
         \<and> (\<forall>p. retry_policy = Some p \<longrightarrow> map_of md ''retry_policy'' = Some (MDict p))
         \<and> config c' = config c
         \<and> (\<forall>r. r \<noteq> func \<longrightarrow> st' r = st r)
         \<and> st' func = (st func)\<lparr>co_attrs := co_attrs (st' func)\<rparr>
         \<and> map_of (co_attrs (st' func)) ''is_workflow_task'' = Some (MBool True)
         \<and> map_of (co_attrs (st' func)) ''execution_metadata'' = Some (MMeta md)))"
proof (intro conjI impI)
  show "(\<exists>msg. fst (workflow_task nm timeout retry_policy kwargs func ap st) = Inl (TypeError msg))
            \<longleftrightarrow> \<not> co_is_coroutine (st func)"
    using assms(3-6)
    by (cases "app_context ap")
       (auto simp: workflow_task_def Let_def context_of_def)
next
  assume a: "co_is_coroutine (st func) \<and> app_context ap = Some c"
  let ?f = "st func"
  let ?derived = "m @ ''.'' @ q"
  let ?name = "case nm of None \<Rightarrow> ?derived | Some n \<Rightarrow> if n = [] then ?derived else n"
  define t' where "t' = (case timeout of None \<Rightarrow> minutes 10 | Some t \<Rightarrow> if t = 0 then minutes 10 else t)"
  define p' where "p' = (case retry_policy of None \<Rightarrow> [] | Some p \<Rightarrow> p)"
  define md where "md = fold (\<lambda>(k, v). dict_set k v) kwargs
     [(''activity_name'', MStr ?name), (''schedule_to_close_timeout'', MTimeout t'),
      (''retry_policy'', MDict p')]"
  define c' where "c' = c\<lparr>task_registry := register ?name func md (task_registry c)\<rparr>"
  define st' where "st' = st(func := ?f\<lparr>co_attrs := dict_set ''execution_metadata'' (MMeta md)
                         (dict_set ''is_workflow_task'' (MBool True) (co_attrs ?f))\<rparr>)"
  have nm: "(if truthy nm then Inr (case nm of Some n \<Rightarrow> n | None \<Rightarrow> [])
             else (case co_module ?f of
                     None \<Rightarrow> Inl (AttributeError ''__module__'')
                   | Some m \<Rightarrow>
                       (case co_qualname ?f of
                          None \<Rightarrow> Inl (AttributeError ''__qualname__'')
                        | Some q \<Rightarrow> Inr (m @ ''.'' @ q)))) = (Inr ?name :: exn + string)"
    using assms(4,5) by (cases nm) (simp_all add: truthy_def)
  have r: "workflow_task nm timeout retry_policy kwargs func ap st
             = (Inr func, ap\<lparr>app_context := Some c'\<rparr>, st')"
    using a assms(6) unfolding workflow_task_def Let_def nm st'_def c'_def md_def t'_def p'_def
    by (simp add: context_of_def)
  have 1: "map_of (task_registry c') ?name = Some (func, md)"
    by (simp add: c'_def register_def map_of_dict_set)
  have t: "map_of md ''schedule_to_close_timeout'' = Some (MTimeout t')"
    unfolding md_def using map_of_fold_dict_set [OF assms(1)] by simp
  have p: "map_of md ''retry_policy'' = Some (MDict p')"
    unfolding md_def using map_of_fold_dict_set [OF assms(2)] by simp
  have 2: "timeout = None \<longrightarrow> map_of md ''schedule_to_close_timeout'' = Some (MTimeout (minutes 10))"
    using t by (simp add: t'_def)
  have 3: "\<forall>t. timeout = Some t \<and> t \<noteq> 0 \<longrightarrow> map_of md ''schedule_to_close_timeout'' = Some (MTimeout t)"
    using t by (simp add: t'_def)
  have 4: "retry_policy = None \<longrightarrow> map_of md ''retry_policy'' = Some (MDict [])"
    using p by (simp add: p'_def)
  have 5: "\<forall>p. retry_policy = Some p \<longrightarrow> map_of md ''retry_policy'' = Some (MDict p)"
    using p by (simp add: p'_def)
  have 6: "config c' = config c" by (simp add: c'_def)
  have 7: "\<forall>r. r \<noteq> func \<longrightarrow> st' r = st r" by (simp add: st'_def)
  have 8: "st' func = (st func)\<lparr>co_attrs := co_attrs (st' func)\<rparr>" by (simp add: st'_def)
  have 9: "map_of (co_attrs (st' func)) ''is_workflow_task'' = Some (MBool True)"
    by (simp add: st'_def map_of_dict_set)
  have 10: "map_of (co_attrs (st' func)) ''execution_metadata'' = Some (MMeta md)"
    by (simp add: st'_def map_of_dict_set)
  from r 1 2 3 4 5 6 7 8 9 10
  show "\<exists>md c' st'.
           workflow_task nm timeout retry_policy kwargs func ap st
             = (Inr func, ap\<lparr>app_context := Some c'\<rparr>, st')
         \<and> map_of (task_registry c') ?name = Some (func, md)
         \<and> (timeout = None \<longrightarrow> map_of md ''schedule_to_close_timeout'' = Some (MTimeout (minutes 10)))
         \<and> (\<forall>t. timeout = Some t \<and> t \<noteq> 0 \<longrightarrow> map_of md ''schedule_to_close_timeout'' = Some (MTimeout t))
         \<and> (retry_policy = None \<longrightarrow> map_of md ''retry_policy'' = Some (MDict []))
         \<and> (\<forall>p. retry_policy = Some p \<longrightarrow> map_of md ''retry_policy'' = Some (MDict p))
         \<and> config c' = config c
         \<and> (\<forall>r. r \<noteq> func \<longrightarrow> st' r = st r)
         \<and> st' func = (st func)\<lparr>co_attrs := co_attrs (st' func)\<rparr>
         \<and> map_of (co_attrs (st' func)) ''is_workflow_task'' = Some (MBool True)
         \<and> map_of (co_attrs (st' func)) ''execution_metadata'' = Some (MMeta md)"
    by blast
qed

text \<open>
  Claim C7, on callables that are no functions. A \<^verbatim>\<open>def\<close> function is refused with the
  \<^verbatim>\<open>TypeError\<close>. The partial object of such a function is not a coroutine function either,
  but it has no \<^verbatim>\<open>__name__\<close>: formatting the message of the \<^verbatim>\<open>TypeError\<close> raises
  \<^verbatim>\<open>AttributeError\<close>, and this is the exception that comes out. The partial object of an
  \<^verbatim>\<open>async def\<close> function, registered without a name, fails on \<^verbatim>\<open>__qualname__\<close>. A bound
  \<^verbatim>\<open>async def\<close> method is registered, then \<^verbatim>\<open>setattr\<close> fails on it: the decorator raises
  and the registration stays.
\<close>

theorem workflow_task_attribute_errors:
  "fst (workflow_task None None None [] 0 running_app (\<lambda>r. sync_function))
     = Inl (TypeError ''Function fetch must be async.'')
   \<and> fst (workflow_task None None None [] 0 running_app (\<lambda>r. partial_of_sync_function))
     = Inl (AttributeError ''__name__'')
   \<and> fst (workflow_task None None None [] 0 running_app (\<lambda>r. partial_of_async_function))
     = Inl (AttributeError ''__qualname__'')
   \<and> fst (workflow_task None None None [] 0 running_app (\<lambda>r. bound_async_method))
     = Inl (AttributeError ''is_workflow_task'')
   \<and> map_option (\<lambda>c. map fst (task_registry c))
       (app_context (fst (snd (workflow_task None None None [] 0 running_app (\<lambda>r. bound_async_method)))))
     = Some [''tasks.Client.fetch'']"
  by (simp add: workflow_task_def Let_def sync_function_def partial_of_sync_function_def
      partial_of_async_function_def bound_async_method_def example_function_def truthy_def
      running_app_def fresh_app_def example_context_def context_of_def register_def)

section \<open>Loading a prompt file\<close>

text \<open>
  Claim C9. Whatever the file and whatever loading it would give, \<^verbatim>\<open>load_prompt_multipart\<close>
  raises \<^verbatim>\<open>AttributeError\<close> for the name flatten and returns nothing, provided that no
  class that \<^verbatim>\<open>PromptMessageMultipart\<close> inherits from has an attribute of this name: the
  class itself defines \<^verbatim>\<open>to_multipart\<close>, \<^verbatim>\<open>from_multipart\<close> and
  \<^verbatim>\<open>parse_get_prompt_result\<close> only. The file is not even loaded.
\<close>

theorem load_prompt_multipart_raises:
  "''flatten'' \<notin> set inherited \<Longrightarrow>
     load_prompt_multipart inherited call load_prompt file = Inl (AttributeError ''flatten'')"
  by (simp add: load_prompt_multipart_def PromptMessageMultipart_getattr_def)

theorem load_prompt_multipart_raises_witness:
  "''flatten'' \<notin> set [''model_copy'', ''model_dump'', ''model_validate'']
   \<and> load_prompt_multipart [''model_copy'', ''model_dump'', ''model_validate'']
         (\<lambda>method messages. Inr (to_multipart messages))
         (\<lambda>file. Inr [\<lparr>role = User, content = TextContent file\<rparr>]) ''prompt.txt''
       = Inl (AttributeError ''flatten'')"
  using load_prompt_multipart_raises [of "[''model_copy'', ''model_dump'', ''model_validate'']"
      "\<lambda>method messages. Inr (to_multipart messages)"
      "\<lambda>file. Inr [\<lparr>role = User, content = TextContent file\<rparr>]" "''prompt.txt''"]
  by simp

section \<open>Round trip between the two message representations\<close>

lemma loop_flatten:
  "concat (map from_multipart (to_multipart_loop msgs result (Some g) (Some (mp_role g))))
     = concat (map from_multipart result) @ from_multipart g @ msgs"
proof (induction msgs arbitrary: result g)
  case Nil
  show ?case by simp
next
  case (Cons msg msgs)
  show ?case
  proof (cases "role msg = mp_role g")
    case True
    have "from_multipart (g\<lparr>mp_content := mp_content g @ [content msg]\<rparr>) = from_multipart g @ [msg]"
      using True by (simp add: from_multipart_def)
    with True Cons.IH [of result "g\<lparr>mp_content := mp_content g @ [content msg]\<rparr>"]
    show ?thesis by simp
  next
    case False
    have "from_multipart \<lparr>mp_role = role msg, mp_content = [content msg]\<rparr> = [msg]"
      by (simp add: from_multipart_def)
    with False Cons.IH [of "result @ [g]" "\<lparr>mp_role = role msg, mp_content = [content msg]\<rparr>"]
    show ?thesis by simp
  qed
qed

lemma loop_groups_nonempty:
  "[] \<notin> set (map mp_content result) \<Longrightarrow> mp_content g \<noteq> [] \<Longrightarrow>
   [] \<notin> set (map mp_content (to_multipart_loop msgs result (Some g) (Some (mp_role g))))"
proof (induction msgs arbitrary: result g)
  case Nil
  then show ?case by auto
next
  case (Cons msg msgs)
  show ?case
  proof (cases "role msg = mp_role g")
    case True
    with Cons.prems Cons.IH [of result "g\<lparr>mp_content := mp_content g @ [content msg]\<rparr>"]
    show ?thesis by simp
  next
    case False
    with Cons.prems Cons.IH [of "result @ [g]" "\<lparr>mp_role = role msg, mp_content = [content msg]\<rparr>"]
    show ?thesis by auto
  qed
qed

lemma loop_roles_alternate:
  "distinct_adj (map mp_role (result @ [g])) \<Longrightarrow>
   distinct_adj (map mp_role (to_multipart_loop msgs result (Some g) (Some (mp_role g))))"
proof (induction msgs arbitrary: result g)
  case Nil
  then show ?case by simp
next
  case (Cons msg msgs)
  show ?case
  proof (cases "role msg = mp_role g")
    case True
    with Cons.prems Cons.IH [of result "g\<lparr>mp_content := mp_content g @ [content msg]\<rparr>"]
    show ?thesis by simp
  next
    case False
    have "distinct_adj (map mp_role ((result @ [g]) @ [\<lparr>mp_role = role msg, mp_content = [content msg]\<rparr>]))"
      using Cons.prems False by (simp add: distinct_adj_append_iff)
    with False Cons.IH [of "result @ [g]" "\<lparr>mp_role = role msg, mp_content = [content msg]\<rparr>"]
    show ?thesis by simp
  qed
qed

text \<open>
  Claim C10. Flattening the groups of \<^verbatim>\<open>to_multipart\<close> with \<^verbatim>\<open>from_multipart\<close>, in order,
  gives back the list of messages it was given, role and content at every position. The
  groups are the maximal runs of equal role: no group is empty and two neighbouring groups
  never have the same role, so no run is split and no two runs are merged. The empty list
  is mapped to the empty list.
\<close>

theorem to_multipart_roundtrip:
  "concat (map from_multipart (to_multipart msgs)) = msgs
   \<and> distinct_adj (map mp_role (to_multipart msgs))
   \<and> [] \<notin> set (map mp_content (to_multipart msgs))
   \<and> to_multipart [] = []"
proof (cases msgs)
  case Nil
  then show ?thesis by (simp add: to_multipart_def)
next
  case (Cons m ms)
  let ?g = "\<lparr>mp_role = role m, mp_content = [content m]\<rparr>"
  have eq: "to_multipart msgs = to_multipart_loop ms [] (Some ?g) (Some (mp_role ?g))"
    using Cons by (simp add: to_multipart_def)
  have "from_multipart ?g = [m]" by (simp add: from_multipart_def)
  then have a: "concat (map from_multipart (to_multipart msgs)) = msgs"
    using loop_flatten [of ms "[]" ?g] Cons eq by simp
  have b: "distinct_adj (map mp_role (to_multipart msgs))"
    using loop_roles_alternate [of "[]" ?g ms] eq by simp
  have c: "[] \<notin> set (map mp_content (to_multipart msgs))"
    using loop_groups_nonempty [of "[]" ?g ms] eq by simp
  from a b c show ?thesis by (simp add: to_multipart_def)
qed

end
